theory Spec2Isabelle
  imports Main
begin


section \<open>Values shared by both layers\<close>

text \<open>
  A Go \<^verbatim>\<open>string\<close> and a \<^verbatim>\<open>[]byte\<close> are sequences of 8-bit bytes; the conversions
  \<^verbatim>\<open>[]byte(data)\<close> and \<^verbatim>\<open>string(response)\<close> copy the bytes unchanged. Both are
  modelled by \<^typ>\<open>char list\<close> (an Isabelle \<^typ>\<open>char\<close> is one byte). \<^verbatim>\<open>peer.ID\<close> is a
  Go string type.
\<close>

type_synonym bytes = "char list"

type_synonym peer_id = string

abbreviation nl :: char where
  "nl \<equiv> CHR 0x0A"

text \<open>
  Go errors. The sentinel errors come from the libraries the code calls; every error the
  repository builds itself is a \<^verbatim>\<open>fmt.Errorf(format, args...)\<close>, kept as the format
  string with its arguments (an error argument is the wrapped \<^verbatim>\<open>%w\<close> error).
\<close>

datatype error =
    EOF
  | ErrReset
  | ErrDialFailed
  | ErrProtocolNotSupported
  | ErrNotFound
  | Errorf string "arg list"
and arg = ArgInt int | ArgStr string | ArgErr error

text \<open>
  What a call can do besides returning: block forever (a read on a stream that never
  delivers), or panic at run time (a slice out of range, a close of a closed channel).
\<close>

datatype 'a outcome = Return 'a | Hang | Panic

text \<open>\<^verbatim>\<open>b[:len(b)-1]\<close>: the slice panics when \<^verbatim>\<open>b\<close> is empty.\<close>

definition drop_last :: "bytes \<Rightarrow> bytes option" where
  "drop_last b = (if b = [] then None else Some (take (length b - 1) b))"

text \<open>\<^verbatim>\<open>strings.HasPrefix\<close> and \<^verbatim>\<open>strings.Contains\<close>, used to read the claims about substrings.\<close>

fun HasPrefix :: "string \<Rightarrow> string \<Rightarrow> bool" where
  "HasPrefix s [] = True"
| "HasPrefix [] (p # ps) = False"
| "HasPrefix (c # s) (p # ps) = (c = p \<and> HasPrefix s ps)"

fun Contains :: "string \<Rightarrow> string \<Rightarrow> bool" where
  "Contains [] sub = (sub = [])"
| "Contains (c # s) sub = (HasPrefix (c # s) sub \<or> Contains s sub)"


section \<open>Streams\<close>

text \<open>
  One direction of a libp2p stream as its reader sees it: the bytes that have arrived and
  are not yet consumed, and what follows them. After the bytes of an \<open>Open\<close> pipe a read
  blocks (the writer may still write), after those of a \<open>Closed\<close> pipe it returns
  \<^verbatim>\<open>io.EOF\<close> (the writer closed its side), and on a \<open>Reset\<close> pipe every read fails.
\<close>

datatype pstate = Open | Closed | Reset

record pipe =
  pdata :: bytes
  pstate :: pstate

text \<open>
  \<^verbatim>\<open>Stream.Read(buf)\<close> with \<^verbatim>\<open>len(buf) = n\<close>: at most \<open>n\<close> of the bytes that have
  arrived. \<open>None\<close> is a read that never returns.
\<close>

definition stream_Read :: "nat \<Rightarrow> pipe \<Rightarrow> (bytes \<times> error option \<times> pipe) option" where
  "stream_Read n p =
     (if pstate p = Reset then Some ([], Some ErrReset, p)
      else if pdata p \<noteq> [] then Some (take n (pdata p), None, p\<lparr>pdata := drop n (pdata p)\<rparr>)
      else if pstate p = Closed then Some ([], Some EOF, p)
      else None)"

text \<open>
  The other end of a direction: the bytes handed to the transport so far, and whether the
  transport still takes writes.
\<close>

record sink =
  delivered :: bytes
  healthy :: bool

definition sink_Write :: "sink \<Rightarrow> bytes \<Rightarrow> error + sink" where
  "sink_Write k b =
     (if healthy k then Inr (k\<lparr>delivered := delivered k @ b\<rparr>) else Inl ErrReset)"

subsection \<open>bufio\<close>

text \<open>
  \<^verbatim>\<open>bufio.Reader.ReadString(delim)\<close>: the bytes up to and including the first
  delimiter. Without a delimiter it returns what it has read together with the error of
  the stream (\<^verbatim>\<open>io.EOF\<close> on a closed one), or never returns while the stream stays open.
\<close>

fun cut_line :: "char \<Rightarrow> bytes \<Rightarrow> (bytes \<times> bytes) option" where
  "cut_line delim [] = None"
| "cut_line delim (c # cs) =
     (if c = delim then Some ([c], cs)
      else (case cut_line delim cs of
              None \<Rightarrow> None
            | Some (line, rest) \<Rightarrow> Some (c # line, rest)))"

definition ReadString :: "char \<Rightarrow> pipe \<Rightarrow> (bytes \<times> error option \<times> pipe) option" where
  "ReadString delim p =
     (if pstate p = Reset then Some ([], Some ErrReset, p)
      else (case cut_line delim (pdata p) of
              Some (line, rest) \<Rightarrow> Some (line, None, p\<lparr>pdata := rest\<rparr>)
            | None \<Rightarrow>
                (if pstate p = Closed then Some (pdata p, Some EOF, p\<lparr>pdata := []\<rparr>)
                 else None)))"

text \<open>
  \<^verbatim>\<open>bufio.Writer\<close> with the default buffer of 4096 bytes: the buffered bytes and the
  sticky error of the first failed write. \<^verbatim>\<open>Flush\<close> hands the buffer to the stream;
  \<^verbatim>\<open>WriteString\<close> fills the buffer and flushes it as long as the string does not fit,
  so a string that fits is only buffered and cannot fail.
\<close>

record Writer =
  wbuf :: bytes
  werr :: "error option"

definition bufio_size :: nat where
  "bufio_size = 4096"

definition NewWriter :: Writer where
  "NewWriter = \<lparr>wbuf = [], werr = None\<rparr>"

definition bufio_Flush :: "Writer \<times> sink \<Rightarrow> Writer \<times> sink" where
  "bufio_Flush ws =
     (case ws of (w, k) \<Rightarrow>
        if werr w \<noteq> None then (w, k)
        else if wbuf w = [] then (w, k)
        else (case sink_Write k (wbuf w) of
                Inl e \<Rightarrow> (w\<lparr>werr := Some e\<rparr>, k)
              | Inr k' \<Rightarrow> (w\<lparr>wbuf := []\<rparr>, k')))"

function bufio_WriteString :: "Writer \<Rightarrow> sink \<Rightarrow> bytes \<Rightarrow> error option \<times> Writer \<times> sink" where
  "bufio_WriteString w k s =
     (if bufio_size - length (wbuf w) < length s \<and> werr w = None then
        (case bufio_Flush (w\<lparr>wbuf := wbuf w @ take (bufio_size - length (wbuf w)) s\<rparr>, k) of
           (w', k') \<Rightarrow> bufio_WriteString w' k' (drop (bufio_size - length (wbuf w)) s))
      else if werr w \<noteq> None then (werr w, w, k)
      else (None, w\<lparr>wbuf := wbuf w @ s\<rparr>, k))"
  by pat_completeness auto
termination
  by (relation "measure (\<lambda>(w, k, s).
         if werr w \<noteq> None then 0
         else 1 + 2 * length s + (if bufio_size \<le> length (wbuf w) then 1 else 0))")
     (auto simp: bufio_Flush_def sink_Write_def bufio_size_def split: if_splits sum.splits)

declare bufio_WriteString.simps [simp del]


subsection \<open>io\<close>

text \<open>
  \<^verbatim>\<open>io.Copy(dst, src)\<close>: read into a buffer of 32 KiB and write what was read, until a
  read fails; end of stream is not an error of the copy. The result is what was written,
  and \<open>None\<close> (the copy never returns), \<open>Some None\<close> (it returns \<^verbatim>\<open>nil\<close>) or the error.
\<close>

definition copy_buf_size :: nat where
  "copy_buf_size = 32768"

function io_Copy :: "sink \<Rightarrow> pipe \<Rightarrow> sink \<times> error option option" where
  "io_Copy dst src =
     (case stream_Read copy_buf_size src of
        None \<Rightarrow> (dst, None)
      | Some (buf, er, src') \<Rightarrow>
          (case (if buf \<noteq> [] then sink_Write dst buf else Inr dst) of
             Inl ew \<Rightarrow> (dst, Some (Some ew))
           | Inr dst' \<Rightarrow>
               (case er of
                  Some e \<Rightarrow> (dst', Some (if e = EOF then None else Some e))
                | None \<Rightarrow> io_Copy dst' src')))"
  by pat_completeness auto
termination
  by (relation "measure (\<lambda>(dst, src). length (pdata src))")
     (auto simp: stream_Read_def copy_buf_size_def split: if_splits)

declare io_Copy.simps [simp del]

text \<open>
  \<^verbatim>\<open>io.ReadAll(r)\<close>: append what each read returns until a read fails; end of stream is
  not an error. It starts with a buffer of 512 bytes; the growth of the buffer changes the
  size of the reads and not the bytes returned, and every read here asks for 512 bytes.
\<close>

definition read_all_chunk :: nat where
  "read_all_chunk = 512"

function io_ReadAll :: "pipe \<Rightarrow> bytes \<Rightarrow> (bytes \<times> error option) option" where
  "io_ReadAll src b =
     (case stream_Read read_all_chunk src of
        None \<Rightarrow> None
      | Some (buf, er, src') \<Rightarrow>
          (case er of
             Some e \<Rightarrow> Some (b @ buf, if e = EOF then None else Some e)
           | None \<Rightarrow> io_ReadAll src' (b @ buf)))"
  by pat_completeness auto
termination
  by (relation "measure (\<lambda>(src, b). length (pdata src))")
     (auto simp: stream_Read_def read_all_chunk_def split: if_splits)

declare io_ReadAll.simps [simp del]

subsection \<open>time\<close>

text \<open>
  \<^verbatim>\<open>time.Now().Format("15:04:05")\<close>: the local time of day as two-digit hour, minute and
  second. A clock value is the number of seconds since local midnight.
\<close>

definition digit :: "nat \<Rightarrow> char" where
  "digit d = ''0123456789'' ! (d mod 10)"

definition two_digits :: "nat \<Rightarrow> string" where
  "two_digits n = [digit (n div 10), digit n]"

definition Format_150405 :: "nat \<Rightarrow> string" where
  "Format_150405 t =
     two_digits ((t div 3600) mod 24) @ '':'' @ two_digits ((t div 60) mod 60) @ '':'' @
     two_digits (t mod 60)"


section \<open>Protocol handler\<close>

definition PingProtocol :: string where
  "PingProtocol = ''/libp2p-learn/ping/1.0.0''"

definition ChatProtocol :: string where
  "ChatProtocol = ''/libp2p-learn/chat/1.0.0''"

definition EchoProtocol :: string where
  "EchoProtocol = ''/libp2p-learn/echo/1.0.0''"

text \<open>
  A logrus entry: level, message and the string fields set from the data read (the peer
  and error fields are left out).
\<close>

datatype level = DebugLevel | InfoLevel | ErrorLevel

datatype log_entry = Log level string "(string \<times> string) list"

fun entry_level :: "log_entry \<Rightarrow> level" where
  "entry_level (Log lv msg fs) = lv"

text \<open>
  A stream handler runs on the accepted stream: the bytes the client has sent (with what
  follows them) and the direction back to the client. It ends by returning (the deferred
  \<^verbatim>\<open>s.Close()\<close> then closes the stream), by blocking in a read, or by a panic.
\<close>

record sstream =
  inp :: pipe
  outp :: sink

datatype hstatus = HReturned | HBlocked | HPanicked

record hresult =
  final :: sink
  status :: hstatus
  logs :: "log_entry list"

text \<open>The first argument is the clock of the handler's host: the time at its \<open>k\<close>-th reading.\<close>

type_synonym handler = "(nat \<Rightarrow> nat) \<Rightarrow> sstream \<Rightarrow> hresult"

definition handlePing :: handler where
  "handlePing clk s =
     (let lg = [Log DebugLevel ''Received ping request'' []] in
      case ReadString nl (inp s) of
        None \<Rightarrow> \<lparr>final = outp s, status = HBlocked, logs = lg\<rparr>
      | Some (data, Some err, rd) \<Rightarrow>
          \<lparr>final = outp s, status = HReturned,
           logs = lg @ [Log ErrorLevel ''Failed to read ping data'' []]\<rparr>
      | Some (data, None, rd) \<Rightarrow>
          (case bufio_WriteString NewWriter (outp s) (''pong: '' @ data) of
             (Some err, w, k) \<Rightarrow>
               \<lparr>final = k, status = HReturned,
                logs = lg @ [Log ErrorLevel ''Failed to write pong response'' []]\<rparr>
           | (None, w, k) \<Rightarrow>
               (case bufio_Flush (w, k) of
                  (w', k') \<Rightarrow>
                    (case drop_last data of
                       None \<Rightarrow> \<lparr>final = k', status = HPanicked, logs = lg\<rparr>
                     | Some d \<Rightarrow>
                         \<lparr>final = k', status = HReturned,
                          logs = lg @ [Log InfoLevel ''Handled ping request'' [(''data'', d)]]\<rparr>))))"

lemma cut_line_shorter: "cut_line delim b = Some (line, rest) \<Longrightarrow> length rest < length b"
  by (induction b arbitrary: line rest) (auto split: if_splits option.splits)

text \<open>
  The loop of \<open>handleChat\<close>: the reader, the writer and its stream, the number of lines
  answered so far and the log.
\<close>

function chat_loop :: "(nat \<Rightarrow> nat) \<Rightarrow> nat \<Rightarrow> pipe \<Rightarrow> Writer \<Rightarrow> sink \<Rightarrow> log_entry list \<Rightarrow> hresult" where
  "chat_loop clk n rd w k lg =
     (case ReadString nl rd of
        None \<Rightarrow> \<lparr>final = k, status = HBlocked, logs = lg\<rparr>
      | Some (message, Some err, rd') \<Rightarrow>
          \<lparr>final = k, status = HReturned,
           logs = (if err \<noteq> EOF then lg @ [Log ErrorLevel ''Failed to read chat message'' []]
                   else lg)\<rparr>
      | Some (message, None, rd') \<Rightarrow>
          (case drop_last message of
             None \<Rightarrow> \<lparr>final = k, status = HPanicked, logs = lg\<rparr>
           | Some m \<Rightarrow>
               (let lg1 = lg @ [Log InfoLevel ''Received chat message'' [(''message'', m)]];
                    response = ''['' @ Format_150405 (clk n) @ ''] Echo: '' @ message
                in case bufio_WriteString w k response of
                     (Some err, w1, k1) \<Rightarrow>
                       \<lparr>final = k1, status = HReturned,
                        logs = lg1 @ [Log ErrorLevel ''Failed to write chat response'' []]\<rparr>
                   | (None, w1, k1) \<Rightarrow>
                       (case bufio_Flush (w1, k1) of
                          (w2, k2) \<Rightarrow> chat_loop clk (Suc n) rd' w2 k2 lg1))))"
  by pat_completeness auto
termination
  by (relation "measure (\<lambda>(clk, n, rd, w, k, lg). length (pdata rd))")
     (auto simp: ReadString_def split: if_splits option.splits dest: cut_line_shorter)

declare chat_loop.simps [simp del]

definition handleChat :: handler where
  "handleChat clk s =
     chat_loop clk 0 (inp s) NewWriter (outp s) [Log DebugLevel ''Received chat connection'' []]"

definition handleEcho :: handler where
  "handleEcho clk s =
     (let lg = [Log DebugLevel ''Received echo connection'' []] in
      case io_Copy (outp s) (inp s) of
        (k, None) \<Rightarrow> \<lparr>final = k, status = HBlocked, logs = lg\<rparr>
      | (k, Some (Some err)) \<Rightarrow>
          \<lparr>final = k, status = HReturned, logs = lg @ [Log ErrorLevel ''Failed to echo data'' []]\<rparr>
      | (k, Some None) \<Rightarrow>
          \<lparr>final = k, status = HReturned, logs = lg @ [Log InfoLevel ''Handled echo request'' []]\<rparr>)"

text \<open>\<open>SetupProtocols\<close> on the host's table of stream handlers.\<close>

definition SetupProtocols :: "(string \<rightharpoonup> handler) \<Rightarrow> (string \<rightharpoonup> handler)" where
  "SetupProtocols tbl =
     tbl(PingProtocol \<mapsto> handlePing, ChatProtocol \<mapsto> handleChat, EchoProtocol \<mapsto> handleEcho)"

subsection \<open>Client side\<close>

text \<open>
  What the local host knows of a peer it can reach: the peer's table of stream handlers,
  the peer's clock, and whether each direction of a stream to it carries data.
\<close>

record peer =
  handlers :: "string \<rightharpoonup> handler"
  clock :: "nat \<Rightarrow> nat"
  up_ok :: bool
  down_ok :: bool

record ProtocolHandler =
  ph_host :: "peer_id \<rightharpoonup> peer"

text \<open>
  The client's end of a stream: the handler at the other end, the direction to it, whether
  the client has closed that direction, and whether the direction back carries data.
\<close>

record stream =
  remote :: handler
  rclock :: "nat \<Rightarrow> nat"
  up :: sink
  up_closed :: bool
  back_ok :: bool

definition NewStream :: "(peer_id \<rightharpoonup> peer) \<Rightarrow> peer_id \<Rightarrow> string \<Rightarrow> error + stream" where
  "NewStream h peerID proto =
     (case h peerID of
        None \<Rightarrow> Inl ErrDialFailed
      | Some r \<Rightarrow>
          (case handlers r proto of
             None \<Rightarrow> Inl ErrProtocolNotSupported
           | Some f \<Rightarrow>
               Inr \<lparr>remote = f, rclock = clock r,
                    up = \<lparr>delivered = [], healthy = up_ok r\<rparr>,
                    up_closed = False, back_ok = down_ok r\<rparr>))"

definition stream_Write :: "stream \<Rightarrow> bytes \<Rightarrow> error + stream" where
  "stream_Write s b =
     (case sink_Write (up s) b of Inl e \<Rightarrow> Inl e | Inr k \<Rightarrow> Inr (s\<lparr>up := k\<rparr>))"

definition CloseWrite :: "stream \<Rightarrow> stream" where
  "CloseWrite s = s\<lparr>up_closed := True\<rparr>"

text \<open>
  What the remote handler has run on by the time the client reads, and what the client
  can then read: the handler's output, ended by the handler's close once it has returned.
\<close>

definition remote_run :: "stream \<Rightarrow> hresult" where
  "remote_run s =
     remote s (rclock s)
       \<lparr>inp = \<lparr>pdata = delivered (up s),
               pstate = (if \<not> healthy (up s) then Reset
                         else if up_closed s then Closed else Open)\<rparr>,
        outp = \<lparr>delivered = [], healthy = back_ok s\<rparr>\<rparr>"

definition reply :: "stream \<Rightarrow> pipe" where
  "reply s =
     \<lparr>pdata = delivered (final (remote_run s)),
      pstate = (if \<not> back_ok s then Reset
                else if status (remote_run s) = HBlocked then Open else Closed)\<rparr>"

definition SendPing :: "ProtocolHandler \<Rightarrow> peer_id \<Rightarrow> string \<Rightarrow> (error + string) outcome" where
  "SendPing p peerID message =
     (case NewStream (ph_host p) peerID PingProtocol of
        Inl err \<Rightarrow> Return (Inl (Errorf ''failed to create stream: %w'' [ArgErr err]))
      | Inr s \<Rightarrow>
          (case bufio_WriteString NewWriter (up s) (message @ [nl]) of
             (Some err, w, k) \<Rightarrow> Return (Inl (Errorf ''failed to send ping: %w'' [ArgErr err]))
           | (None, w, k) \<Rightarrow>
               (case bufio_Flush (w, k) of
                  (w', k') \<Rightarrow>
                    (case ReadString nl (reply (s\<lparr>up := k'\<rparr>)) of
                       None \<Rightarrow> Hang
                     | Some (response, Some err, rd) \<Rightarrow>
                         Return (Inl (Errorf ''failed to read pong: %w'' [ArgErr err]))
                     | Some (response, None, rd) \<Rightarrow>
                         (case drop_last response of
                            None \<Rightarrow> Panic
                          | Some r \<Rightarrow> Return (Inr r))))))"

definition SendChatMessage :: "ProtocolHandler \<Rightarrow> peer_id \<Rightarrow> string \<Rightarrow> (error + string) outcome" where
  "SendChatMessage p peerID message =
     (case NewStream (ph_host p) peerID ChatProtocol of
        Inl err \<Rightarrow> Return (Inl (Errorf ''failed to create stream: %w'' [ArgErr err]))
      | Inr s \<Rightarrow>
          (case bufio_WriteString NewWriter (up s) (message @ [nl]) of
             (Some err, w, k) \<Rightarrow> Return (Inl (Errorf ''failed to send message: %w'' [ArgErr err]))
           | (None, w, k) \<Rightarrow>
               (case bufio_Flush (w, k) of
                  (w', k') \<Rightarrow>
                    (case ReadString nl (reply (s\<lparr>up := k'\<rparr>)) of
                       None \<Rightarrow> Hang
                     | Some (response, Some err, rd) \<Rightarrow>
                         Return (Inl (Errorf ''failed to read response: %w'' [ArgErr err]))
                     | Some (response, None, rd) \<Rightarrow>
                         (case drop_last response of
                            None \<Rightarrow> Panic
                          | Some r \<Rightarrow> Return (Inr r))))))"

definition SendEcho :: "ProtocolHandler \<Rightarrow> peer_id \<Rightarrow> string \<Rightarrow> (error + string) outcome" where
  "SendEcho p peerID data =
     (case NewStream (ph_host p) peerID EchoProtocol of
        Inl err \<Rightarrow> Return (Inl (Errorf ''failed to create stream: %w'' [ArgErr err]))
      | Inr s \<Rightarrow>
          (case stream_Write s data of
             Inl err \<Rightarrow> Return (Inl (Errorf ''failed to send data: %w'' [ArgErr err]))
           | Inr s1 \<Rightarrow>
               (case io_ReadAll (reply (CloseWrite s1)) [] of
                  None \<Rightarrow> Hang
                | Some (response, Some err) \<Rightarrow>
                    Return (Inl (Errorf ''failed to read echo: %w'' [ArgErr err]))
                | Some (response, None) \<Rightarrow> Return (Inr response))))"

section \<open>Condition waiter\<close>

text \<open>
  Time is counted in milliseconds from the moment a wait is called. A context is the
  instant at which it is done (cancelled or expired), \<open>None\<close> when that never happens;
  \<^verbatim>\<open>context.WithTimeout(ctx, timeout)\<close> is done at the earlier of the parent's instant and
  the timeout. A duration that is not positive is the timeout \<open>0\<close>.
\<close>

definition WithTimeout :: "nat option \<Rightarrow> nat \<Rightarrow> nat" where
  "WithTimeout ctx timeout = (case ctx of None \<Rightarrow> timeout | Some c \<Rightarrow> min c timeout)"

text \<open>
  What the waits use of a \<^verbatim>\<open>host.Host\<close>: its identity, \<^verbatim>\<open>Network().Peers()\<close>, the
  notifiees registered with \<^verbatim>\<open>Network().Notify\<close> (by address), and
  \<^verbatim>\<open>Peerstore().GetProtocols\<close>.
\<close>

record host =
  ID :: peer_id
  Peers :: "peer_id list"
  notifiees :: "nat list"
  GetProtocols :: "peer_id \<Rightarrow> error + string list"

fun isConnected_loop :: "peer_id list \<Rightarrow> peer_id \<Rightarrow> bool" where
  "isConnected_loop [] peerID = False"
| "isConnected_loop (p # peers) peerID = (if p = peerID then True else isConnected_loop peers peerID)"

definition isConnected :: "host \<Rightarrow> peer_id \<Rightarrow> bool" where
  "isConnected node peerID = isConnected_loop (Peers node) peerID"

subsection \<open>The connection notifiee\<close>

text \<open>
  A channel of \<^verbatim>\<open>struct{}\<close> that is only ever closed: open or closed. Closing a closed
  channel panics.
\<close>

datatype chan = ChanOpen | ChanClosed

definition close_chan :: "chan \<Rightarrow> chan outcome" where
  "close_chan c = (case c of ChanOpen \<Rightarrow> Return ChanClosed | ChanClosed \<Rightarrow> Panic)"

record connectionNotifiee =
  targetPeer :: peer_id
  connected :: chan
  notified :: bool

text \<open>
  The callbacks of \<^verbatim>\<open>network.Notifiee\<close>, each with the remote peer of its connection.
  \<open>notifiee_Connected\<close> is the method \<^verbatim>\<open>Connected\<close> run from start to end with no other
  call in between; the other three methods are empty.
\<close>

datatype event = EvListen | EvListenClose | EvConnected peer_id | EvDisconnected peer_id

definition notifiee_Connected :: "connectionNotifiee \<Rightarrow> peer_id \<Rightarrow> connectionNotifiee outcome" where
  "notifiee_Connected n remotePeer =
     (if \<not> notified n \<and> remotePeer = targetPeer n then
        (case close_chan (connected n) of
           Return c \<Rightarrow> Return (n\<lparr>notified := True, connected := c\<rparr>)
         | Hang \<Rightarrow> Hang
         | Panic \<Rightarrow> Panic)
      else Return n)"

fun notify :: "event \<Rightarrow> connectionNotifiee \<Rightarrow> connectionNotifiee outcome" where
  "notify (EvConnected remotePeer) n = notifiee_Connected n remotePeer"
| "notify EvListen n = Return n"
| "notify EvListenClose n = Return n"
| "notify (EvDisconnected remotePeer) n = Return n"

text \<open>
  What the guard of \<open>notifiee_Connected\<close> maintains when calls do not overlap: the flag
  is set exactly when the channel is closed.
\<close>

definition guarded :: "connectionNotifiee \<Rightarrow> bool" where
  "guarded n = (notified n = (connected n = ChanClosed))"

text \<open>The network delivers events to a registered notifiee one after the other.\<close>

fun deliver :: "event list \<Rightarrow> connectionNotifiee \<Rightarrow> connectionNotifiee outcome" where
  "deliver [] n = Return n"
| "deliver (e # es) n =
     (case notify e n of
        Return n' \<Rightarrow> deliver es n'
      | Hang \<Rightarrow> Hang
      | Panic \<Rightarrow> Panic)"

text \<open>
  \<^verbatim>\<open>Notify\<close> and \<^verbatim>\<open>StopNotify\<close> on the host's set of notifiees; \<^verbatim>\<open>&connectionNotifiee{...}\<close>
  is an address no registered notifiee has.
\<close>

definition new_address :: "nat list \<Rightarrow> nat" where
  "new_address used = Suc (fold max used 0)"

definition Notify :: "host \<Rightarrow> nat \<Rightarrow> host" where
  "Notify h a = h\<lparr>notifiees := notifiees h @ [a]\<rparr>"

definition StopNotify :: "host \<Rightarrow> nat \<Rightarrow> host" where
  "StopNotify h a = h\<lparr>notifiees := removeAll a (notifiees h)\<rparr>"

subsection \<open>WaitForConnection\<close>

text \<open>
  \<open>node1\<close> and \<open>node2\<close> are the hosts as the liveness check finds them, at instant \<open>0\<close>.
  \<open>subscribed\<close> is the instant at which \<^verbatim>\<open>Notify\<close> has registered the notifiee, and
  \<open>evs\<close> are the events of \<open>node1\<close>'s network after the check, each with the instant of
  its delivery to the notifiees registered then. The notifiee of this call receives the
  events from \<open>subscribed\<close> on; the \<^verbatim>\<open>select\<close> returns when the channel is closed, which
  an event before the context is done brings about, and otherwise when the context is
  done. The result is the error (\<open>None\<close> for \<^verbatim>\<open>nil\<close>) and \<open>node1\<close> after the deferred calls.
\<close>

definition WaitForConnection ::
  "nat option \<Rightarrow> host \<Rightarrow> host \<Rightarrow> nat \<Rightarrow> nat \<Rightarrow> (nat \<times> event) list \<Rightarrow> (error option \<times> host) outcome" where
  "WaitForConnection ctx node1 node2 timeout subscribed evs =
     (let deadline = WithTimeout ctx timeout in
      if isConnected node1 (ID node2) \<and> isConnected node2 (ID node1) then Return (None, node1)
      else
        let notifiee1 = \<lparr>targetPeer = ID node2, connected = ChanOpen, notified = False\<rparr>;
            a = new_address (notifiees node1);
            node1' = Notify node1 a;
            heard = map snd (filter (\<lambda>(t, e). subscribed \<le> t \<and> t < deadline) evs)
        in case deliver heard notifiee1 of
             Return n \<Rightarrow>
               (case connected n of
                  ChanClosed \<Rightarrow> Return (None, StopNotify node1' a)
                | ChanOpen \<Rightarrow>
                    Return (Some (Errorf ''timeout waiting for connection'' []),
                            StopNotify node1' a))
           | Hang \<Rightarrow> Hang
           | Panic \<Rightarrow> Panic)"

subsection \<open>Concurrent calls of the notifiee\<close>

text \<open>
  The network may run \<^verbatim>\<open>Connected\<close> for several connections at once. Each call then
  advances through the three accesses of the shared notifiee in the method's body: the
  guard reads \<^verbatim>\<open>notified\<close>, the assignment writes it, and \<^verbatim>\<open>close\<close> closes the channel.
  A schedule names, step by step, the call that advances.
\<close>

datatype pc = AtGuard | AtAssign | AtClose | Finished

record calls =
  shared :: connectionNotifiee
  running :: "(peer_id \<times> pc) list"

definition step_call :: "nat \<Rightarrow> calls \<Rightarrow> calls outcome" where
  "step_call i st =
     (if length (running st) \<le> i then Return st
      else case running st ! i of
        (remotePeer, AtGuard) \<Rightarrow>
          Return (st\<lparr>running := (running st)
                     [i := (remotePeer,
                            if \<not> notified (shared st) \<and> remotePeer = targetPeer (shared st)
                            then AtAssign else Finished)]\<rparr>)
      | (remotePeer, AtAssign) \<Rightarrow>
          Return (st\<lparr>shared := (shared st)\<lparr>notified := True\<rparr>,
                     running := (running st)[i := (remotePeer, AtClose)]\<rparr>)
      | (remotePeer, AtClose) \<Rightarrow>
          (case close_chan (connected (shared st)) of
             Return c \<Rightarrow>
               Return (st\<lparr>shared := (shared st)\<lparr>connected := c\<rparr>,
                          running := (running st)[i := (remotePeer, Finished)]\<rparr>)
           | Hang \<Rightarrow> Hang
           | Panic \<Rightarrow> Panic)
      | (remotePeer, Finished) \<Rightarrow> Return st)"

fun run_schedule :: "nat list \<Rightarrow> calls \<Rightarrow> calls outcome" where
  "run_schedule [] st = Return st"
| "run_schedule (i # sched) st =
     (case step_call i st of
        Return st' \<Rightarrow> run_schedule sched st'
      | Hang \<Rightarrow> Hang
      | Panic \<Rightarrow> Panic)"

subsection \<open>The polling waits\<close>

text \<open>
  The loop \<^verbatim>\<open>for { select { case <-ctx.Done(): ... case <-ticker.C: ... } }\<close> of the
  polling waits. The ticker fires every \<open>interval\<close> milliseconds, first at \<open>interval\<close>;
  the context is created before the ticker, so at an instant where both are due the
  context is done first. The loop ends at the first tick before \<open>deadline\<close> at which
  \<open>check\<close> holds, with that instant, or with \<open>None\<close> when the context is done. \<open>t\<close> is the
  instant of the next tick.
\<close>

function ticker_loop :: "nat \<Rightarrow> nat \<Rightarrow> (nat \<Rightarrow> bool) \<Rightarrow> nat \<Rightarrow> nat option" where
  "ticker_loop interval deadline check t =
     (if interval = 0 \<or> deadline \<le> t then None
      else if check t then Some t
      else ticker_loop interval deadline check (t + interval))"
  by pat_completeness auto
termination
  by (relation "measure (\<lambda>(interval, deadline, check, t). deadline - t)") auto

declare ticker_loop.simps [simp del]

text \<open>\<open>node t\<close> is the host at instant \<open>t\<close>.\<close>

definition WaitForPeerCount :: "nat option \<Rightarrow> (nat \<Rightarrow> host) \<Rightarrow> int \<Rightarrow> nat \<Rightarrow> error option" where
  "WaitForPeerCount ctx node expectedCount timeout =
     (let deadline = WithTimeout ctx timeout in
      case ticker_loop 100 deadline (\<lambda>t. expectedCount \<le> int (length (Peers (node t)))) 100 of
        Some t \<Rightarrow> None
      | None \<Rightarrow>
          Some (Errorf ''timeout: expected %d peers, got %d''
                  [ArgInt expectedCount, ArgInt (int (length (Peers (node deadline))))]))"

text \<open>\<open>dhtNode t key\<close> is what \<^verbatim>\<open>dhtNode.GetValue(ctx, key)\<close> returns at instant \<open>t\<close>.\<close>

definition WaitForDHTValue ::
  "nat option \<Rightarrow> (nat \<Rightarrow> string \<Rightarrow> error + bytes) \<Rightarrow> string \<Rightarrow> bytes \<Rightarrow> nat \<Rightarrow> error option" where
  "WaitForDHTValue ctx dhtNode key expectedValue timeout =
     (let deadline = WithTimeout ctx timeout in
      case ticker_loop 200 deadline
             (\<lambda>t. case dhtNode t key of
                     Inr v \<Rightarrow> v = expectedValue
                   | Inl err \<Rightarrow> False) 200 of
        Some t \<Rightarrow> None
      | None \<Rightarrow> Some (Errorf ''timeout waiting for DHT value'' []))"

fun protocol_listed :: "string list \<Rightarrow> string \<Rightarrow> bool" where
  "protocol_listed [] protocolID = False"
| "protocol_listed (proto # protocols) protocolID =
     (if proto = protocolID then True else protocol_listed protocols protocolID)"

definition WaitForProtocolReady ::
  "nat option \<Rightarrow> (nat \<Rightarrow> host) \<Rightarrow> peer_id \<Rightarrow> string \<Rightarrow> nat \<Rightarrow> error option" where
  "WaitForProtocolReady ctx node peerID protocolID timeout =
     (let deadline = WithTimeout ctx timeout in
      case ticker_loop 100 deadline
             (\<lambda>t. case GetProtocols (node t) peerID of
                     Inr protocols \<Rightarrow> protocol_listed protocols protocolID
                   | Inl err \<Rightarrow> False) 100 of
        Some t \<Rightarrow> None
      | None \<Rightarrow> Some (Errorf ''timeout waiting for protocol %s'' [ArgStr protocolID]))"

text \<open>
  \<open>WaitWithCondition\<close> checks the condition once before it starts the ticker;
  \<^verbatim>\<open>time.NewTicker\<close> panics on an interval that is not positive.
\<close>

definition WaitWithCondition ::
  "nat option \<Rightarrow> (nat \<Rightarrow> bool) \<Rightarrow> nat \<Rightarrow> nat \<Rightarrow> error option outcome" where
  "WaitWithCondition ctx condition timeout interval =
     (let deadline = WithTimeout ctx timeout in
      if condition 0 then Return None
      else if interval = 0 then Panic
      else case ticker_loop interval deadline condition interval of
             Some t \<Rightarrow> Return None
           | None \<Rightarrow> Return (Some (Errorf ''timeout waiting for condition'' [])))"

section \<open>Concrete hosts and inputs\<close>

text \<open>
  A reachable peer that has run \<open>SetupProtocols\<close>, with working transport and a clock that
  reads 12:34:56, and the protocol handler of a host that reaches it as \<open>QmServer\<close>.
\<close>

definition demo_peer :: peer where
  "demo_peer =
     \<lparr>handlers = SetupProtocols Map.empty, clock = (\<lambda>k. 45296), up_ok = True, down_ok = True\<rparr>"

definition demo_handler :: ProtocolHandler where
  "demo_handler = \<lparr>ph_host = Map.empty(''QmServer'' \<mapsto> demo_peer)\<rparr>"

text \<open>Five bytes that are not a line of text: a newline, \<open>0xFF\<close> and \<open>0x00\<close> among them.\<close>

definition demo_binary :: bytes where
  "demo_binary = [CHR ''a'', nl, CHR 0xFF, CHR 0x00, CHR ''b'']"

text \<open>A chat message with an embedded newline.\<close>

definition demo_two_lines :: string where
  "demo_two_lines = [CHR ''a'', nl, CHR ''b'']"

text \<open>
  Two hosts \<open>A\<close> and \<open>B\<close> that are not connected, and the same two with the connection
  known to \<open>A\<close> only and to both. \<open>A\<close> has one notifiee registered already.
\<close>

definition demo_A :: host where
  "demo_A = \<lparr>ID = ''A'', Peers = [], notifiees = [7], GetProtocols = (\<lambda>p. Inl ErrNotFound)\<rparr>"

definition demo_B :: host where
  "demo_B = \<lparr>ID = ''B'', Peers = [], notifiees = [], GetProtocols = (\<lambda>p. Inl ErrNotFound)\<rparr>"

definition demo_A_knows_B :: host where
  "demo_A_knows_B = demo_A\<lparr>Peers := [''B'']\<rparr>"

definition demo_B_knows_A :: host where
  "demo_B_knows_A = demo_B\<lparr>Peers := [''A'']\<rparr>"

text \<open>
  Two calls of \<^verbatim>\<open>Connected\<close> on the notifiee that waits for \<open>B\<close>, one for each of two
  connections to \<open>B\<close>, both about to start.
\<close>

definition demo_calls :: calls where
  "demo_calls =
     \<lparr>shared = \<lparr>targetPeer = ''B'', connected = ChanOpen, notified = False\<rparr>,
      running = [(''B'', AtGuard), (''B'', AtGuard)]\<rparr>"

text \<open>
  A host with one peer throughout, and a host whose second and third peers connect 220
  milliseconds after the call.
\<close>

definition steady_host :: "nat \<Rightarrow> host" where
  "steady_host t = demo_A\<lparr>Peers := [''p1'']\<rparr>"

definition late_host :: "nat \<Rightarrow> host" where
  "late_host t = demo_A\<lparr>Peers := (if t < 220 then [''p1''] else [''p1'', ''p2'', ''p3''])\<rparr>"

text \<open>Two DHT nodes that hold different values under every key, and one that holds none.\<close>

definition dht_v1 :: "nat \<Rightarrow> string \<Rightarrow> error + bytes" where
  "dht_v1 t key = Inr ''v1''"

definition dht_v2 :: "nat \<Rightarrow> string \<Rightarrow> error + bytes" where
  "dht_v2 t key = Inr ''v2''"

definition dht_empty :: "nat \<Rightarrow> string \<Rightarrow> error + bytes" where
  "dht_empty t key = Inl ErrNotFound"

text \<open>A host whose peer store lists other protocols for every peer.\<close>

definition other_protocols_host :: "nat \<Rightarrow> host" where
  "other_protocols_host t = demo_A\<lparr>GetProtocols := (\<lambda>p. Inr [''/ipfs/id/1.0.0'', ''/ipfs/ping/1.0.0''])\<rparr>"


section \<open>Facts about the stream and buffer primitives\<close>

lemma HasPrefix_iff: "HasPrefix s p \<longleftrightarrow> (\<exists>r. s = p @ r)"
  by (induction s p rule: HasPrefix.induct) auto

lemma Contains_iff: "Contains s sub \<longleftrightarrow> (\<exists>p r. s = p @ sub @ r)"
proof (induction s)
  case Nil
  then show ?case by auto
next
  case (Cons c s)
  show ?case
  proof
    assume "Contains (c # s) sub"
    then consider "HasPrefix (c # s) sub" | "Contains s sub" by auto
    then show "\<exists>p r. c # s = p @ sub @ r"
    proof cases
      case 1
      then obtain r where "c # s = sub @ r" by (auto simp: HasPrefix_iff)
      then have "c # s = [] @ sub @ r" by simp
      then show ?thesis by blast
    next
      case 2
      with Cons obtain p r where "s = p @ sub @ r" by blast
      then have "c # s = (c # p) @ sub @ r" by simp
      then show ?thesis by blast
    qed
  next
    assume "\<exists>p r. c # s = p @ sub @ r"
    then obtain p r where e: "c # s = p @ sub @ r" by blast
    show "Contains (c # s) sub"
    proof (cases p)
      case Nil
      with e have "HasPrefix (c # s) sub" by (auto simp: HasPrefix_iff)
      then show ?thesis by simp
    next
      case (Cons a p')
      with e have "s = p' @ sub @ r" by simp
      with Cons.IH have "Contains s sub" by blast
      then show ?thesis by simp
    qed
  qed
qed

lemma cut_line_first: "delim \<notin> set m \<Longrightarrow> cut_line delim (m @ delim # rest) = Some (m @ [delim], rest)"
  by (induction m) auto

lemma cut_line_Some:
  "cut_line delim b = Some (line, rest) \<Longrightarrow>
   \<exists>m. line = m @ [delim] \<and> delim \<notin> set m \<and> b = line @ rest"
  by (induction b arbitrary: line rest) (auto split: if_splits option.splits)

lemma cut_line_None: "cut_line delim b = None \<longleftrightarrow> delim \<notin> set b"
  by (induction b) (auto split: option.splits)

lemma bufio_Flush_healthy:
  "healthy k \<Longrightarrow> werr w = None \<Longrightarrow>
   bufio_Flush (w, k) = (w\<lparr>wbuf := []\<rparr>, k\<lparr>delivered := delivered k @ wbuf w\<rparr>)"
  by (simp add: bufio_Flush_def sink_Write_def)

lemma bufio_WriteString_healthy:
  "healthy k \<Longrightarrow> werr w = None \<Longrightarrow>
   (case bufio_WriteString w k s of
      (e, w', k') \<Rightarrow> e = None \<and> werr w' = None \<and> healthy k' \<and>
                     delivered k' @ wbuf w' = delivered k @ wbuf w @ s)"
proof (induction w k s rule: bufio_WriteString.induct)
  case (1 w k s)
  show ?case
  proof (cases "bufio_size - length (wbuf w) < length s")
    case True
    let ?n = "bufio_size - length (wbuf w)"
    let ?w1 = "w\<lparr>wbuf := wbuf w @ take ?n s\<rparr>"
    let ?w2 = "?w1\<lparr>wbuf := []\<rparr>"
    let ?k2 = "k\<lparr>delivered := delivered k @ wbuf ?w1\<rparr>"
    have c: "?n < length s \<and> werr w = None"
      using True "1.prems" by simp
    have fl: "bufio_Flush (?w1, k) = (?w2, ?k2)"
      using "1.prems" by (simp add: bufio_Flush_healthy)
    have ih: "(case bufio_WriteString ?w2 ?k2 (drop ?n s) of
      (e, w', k') \<Rightarrow> e = None \<and> werr w' = None \<and> healthy k' \<and>
                     delivered k' @ wbuf w' = delivered ?k2 @ wbuf ?w2 @ drop ?n s)"
      using "1.IH"[OF c fl[symmetric]] "1.prems" by simp
    have unf: "bufio_WriteString w k s = bufio_WriteString ?w2 ?k2 (drop ?n s)"
      using c fl by (subst bufio_WriteString.simps) simp
    show ?thesis using ih unfolding unf by (auto split: prod.splits)
  next
    case False
    then show ?thesis using "1.prems" by (subst bufio_WriteString.simps) simp
  qed
qed

lemma write_flush_healthy:
  assumes "healthy k"
  shows "\<exists>w k'. bufio_WriteString NewWriter k s = (None, w, k') \<and>
       bufio_Flush (w, k') = (NewWriter, k\<lparr>delivered := delivered k @ s\<rparr>)"
proof -
  obtain e w k' where r: "bufio_WriteString NewWriter k s = (e, w, k')"
    by (cases "bufio_WriteString NewWriter k s") auto
  have h: "e = None \<and> werr w = None \<and> healthy k' \<and> delivered k' @ wbuf w = delivered k @ s"
    using bufio_WriteString_healthy[of k NewWriter s] assms r by (simp add: NewWriter_def)
  have "k'\<lparr>delivered := delivered k' @ wbuf w\<rparr> = k\<lparr>delivered := delivered k @ s\<rparr>"
    using h assms by (intro sink.equality) simp_all
  then show ?thesis using r h
    by (simp add: bufio_Flush_healthy NewWriter_def)
qed


lemma io_Copy_closed:
  "healthy dst \<Longrightarrow> pstate src = Closed \<Longrightarrow>
   io_Copy dst src = (dst\<lparr>delivered := delivered dst @ pdata src\<rparr>, Some None)"
proof (induction dst src rule: io_Copy.induct)
  case (1 dst src)
  show ?case
  proof (cases "pdata src = []")
    case True
    with "1.prems" show ?thesis
      by (subst io_Copy.simps) (simp add: stream_Read_def)
  next
    case False
    let ?buf = "take copy_buf_size (pdata src)"
    let ?src' = "src\<lparr>pdata := drop copy_buf_size (pdata src)\<rparr>"
    let ?dst' = "dst\<lparr>delivered := delivered dst @ ?buf\<rparr>"
    have rd: "stream_Read copy_buf_size src = Some (?buf, None, ?src')"
      using False "1.prems" by (simp add: stream_Read_def)
    have ne: "?buf \<noteq> []"
      using False by (simp add: copy_buf_size_def)
    have wr: "(if ?buf \<noteq> [] then sink_Write dst ?buf else Inr dst) = Inr ?dst'"
      using ne "1.prems" by (simp add: sink_Write_def)
    have ih: "io_Copy ?dst' ?src' = (?dst'\<lparr>delivered := delivered ?dst' @ pdata ?src'\<rparr>, Some None)"
      using "1.IH"[OF rd refl refl wr refl] "1.prems" by simp
    have "io_Copy dst src = io_Copy ?dst' ?src'"
      using rd wr by (subst io_Copy.simps) simp
    with ih show ?thesis by simp
  qed
qed

lemma io_ReadAll_closed:
  "pstate src = Closed \<Longrightarrow> io_ReadAll src b = Some (b @ pdata src, None)"
proof (induction src b rule: io_ReadAll.induct)
  case (1 src b)
  show ?case
  proof (cases "pdata src = []")
    case True
    with "1.prems" show ?thesis
      by (subst io_ReadAll.simps) (simp add: stream_Read_def)
  next
    case False
    let ?buf = "take read_all_chunk (pdata src)"
    let ?src' = "src\<lparr>pdata := drop read_all_chunk (pdata src)\<rparr>"
    have rd: "stream_Read read_all_chunk src = Some (?buf, None, ?src')"
      using False "1.prems" by (simp add: stream_Read_def)
    have ih: "io_ReadAll ?src' (b @ ?buf) = Some ((b @ ?buf) @ pdata ?src', None)"
      using "1.IH"[OF rd refl refl refl] "1.prems" by simp
    have "io_ReadAll src b = io_ReadAll ?src' (b @ ?buf)"
      using rd by (subst io_ReadAll.simps) simp
    with ih show ?thesis by simp
  qed
qed

lemma handleEcho_closed:
  "handleEcho clk \<lparr>inp = \<lparr>pdata = b, pstate = Closed\<rparr>, outp = \<lparr>delivered = [], healthy = True\<rparr>\<rparr> =
     \<lparr>final = \<lparr>delivered = b, healthy = True\<rparr>, status = HReturned,
      logs = [Log DebugLevel ''Received echo connection'' [], Log InfoLevel ''Handled echo request'' []]\<rparr>"
  by (simp add: handleEcho_def io_Copy_closed)



section \<open>Facts about the line protocols\<close>


lemma ReadString_line:
  "st \<noteq> Reset \<Longrightarrow> delim \<notin> set l \<Longrightarrow>
   ReadString delim \<lparr>pdata = l @ delim # rest, pstate = st\<rparr> =
     Some (l @ [delim], None, \<lparr>pdata = rest, pstate = st\<rparr>)"
  by (simp add: ReadString_def cut_line_first)

lemma ReadString_no_line:
  "st \<noteq> Reset \<Longrightarrow> delim \<notin> set b \<Longrightarrow>
   ReadString delim \<lparr>pdata = b, pstate = st\<rparr> =
     (if st = Closed then Some (b, Some EOF, \<lparr>pdata = [], pstate = st\<rparr>) else None)"
  using cut_line_None[of delim b] by (simp add: ReadString_def)

lemma ReadString_ok:
  assumes "ReadString delim rd = Some (response, None, rd')"
  shows "\<exists>r. response = r @ [delim] \<and> delim \<notin> set r \<and> pdata rd = response @ pdata rd'"
  using assms cut_line_Some[of delim "pdata rd"]
  by (auto simp: ReadString_def split: if_splits option.splits)

lemma drop_last_snoc: "drop_last (r @ [c]) = Some r"
  by (simp add: drop_last_def)

lemma nl_not_in_pong: "nl \<notin> set ''pong: ''"
  by simp

lemma handlePing_line:
  assumes "st \<noteq> Reset" and "nl \<notin> set l"
  shows "handlePing clk \<lparr>inp = \<lparr>pdata = l @ nl # rest, pstate = st\<rparr>,
                          outp = \<lparr>delivered = [], healthy = True\<rparr>\<rparr> =
     \<lparr>final = \<lparr>delivered = ''pong: '' @ l @ [nl], healthy = True\<rparr>, status = HReturned,
      logs = [Log DebugLevel ''Received ping request'' [],
              Log InfoLevel ''Handled ping request'' [(''data'', l)]]\<rparr>"
proof -
  obtain w k where
    ws: "bufio_WriteString NewWriter \<lparr>delivered = [], healthy = True\<rparr> (''pong: '' @ l @ [nl]) = (None, w, k)"
    and fl: "bufio_Flush (w, k) = (NewWriter, \<lparr>delivered = ''pong: '' @ l @ [nl], healthy = True\<rparr>)"
    using write_flush_healthy[of "\<lparr>delivered = [], healthy = True\<rparr>" "''pong: '' @ l @ [nl]"]
    by auto
  show ?thesis
    using ws fl
    by (simp add: handlePing_def ReadString_line[OF assms] drop_last_snoc)
qed

lemma SendPing_pong:
  assumes "ph_host p peerID = Some r"
    and "handlers r PingProtocol = Some handlePing"
    and "up_ok r" and "down_ok r"
    and "nl \<notin> set m"
  shows "SendPing p peerID m = Return (Inr (''pong: '' @ m))"
proof -
  let ?k0 = "\<lparr>delivered = [], healthy = True\<rparr>"
  let ?s = "\<lparr>remote = handlePing, rclock = clock r, up = ?k0,
             up_closed = False, back_ok = True\<rparr>"
  have ns: "NewStream (ph_host p) peerID PingProtocol = Inr ?s"
    using assms by (simp add: NewStream_def)
  obtain w k where
    ws: "bufio_WriteString NewWriter ?k0 (m @ [nl]) = (None, w, k)"
    and fl: "bufio_Flush (w, k) = (NewWriter, \<lparr>delivered = m @ [nl], healthy = True\<rparr>)"
    using write_flush_healthy[of ?k0 "m @ [nl]"] by auto
  let ?s1 = "\<lparr>remote = handlePing, rclock = clock r, up = \<lparr>delivered = m @ [nl], healthy = True\<rparr>,
             up_closed = False, back_ok = True\<rparr>"
  have rp: "reply ?s1 = \<lparr>pdata = (''pong: '' @ m) @ nl # [], pstate = Closed\<rparr>"
    using handlePing_line[of Open m "clock r" "[]"] assms(5)
    by (simp add: reply_def remote_run_def)
  have rd: "ReadString nl (reply ?s1) = Some ((''pong: '' @ m) @ [nl], None, \<lparr>pdata = [], pstate = Closed\<rparr>)"
    unfolding rp using assms(5) by (intro ReadString_line) auto
  show ?thesis
    using ns ws fl rd by (simp add: SendPing_def drop_last_def)
qed


lemma digit_in: "digit d \<in> set ''0123456789''"
  unfolding digit_def by (rule nth_mem) simp

lemma digit_not_nl: "nl \<noteq> digit d"
  using digit_in[of d] by auto

lemma Format_150405_no_nl: "nl \<notin> set (Format_150405 t)"
  by (simp add: Format_150405_def two_digits_def digit_not_nl)

lemma chat_prefix_no_nl: "nl \<notin> set l \<Longrightarrow> nl \<notin> set (''['' @ Format_150405 t @ ''] Echo: '' @ l)"
  by (simp add: Format_150405_no_nl)

lemma chat_loop_lines:
  assumes "healthy k" and "\<forall>l\<in>set ls. nl \<notin> set l" and "nl \<notin> set tail" and "st \<noteq> Reset"
  shows "chat_loop clk n \<lparr>pdata = concat (map (\<lambda>l. l @ [nl]) ls) @ tail, pstate = st\<rparr> NewWriter k lg =
     \<lparr>final = k\<lparr>delivered := delivered k @
                 concat (map (\<lambda>(i, l). ''['' @ Format_150405 (clk i) @ ''] Echo: '' @ l @ [nl])
                           (enumerate n ls))\<rparr>,
      status = (if st = Closed then HReturned else HBlocked),
      logs = lg @ map (\<lambda>l. Log InfoLevel ''Received chat message'' [(''message'', l)]) ls\<rparr>"
  using assms
proof (induction ls arbitrary: n k lg)
  case Nil
  then show ?case
    by (subst chat_loop.simps) (simp add: ReadString_no_line)
next
  case (Cons l ls)
  let ?rest = "concat (map (\<lambda>l. l @ [nl]) ls) @ tail"
  let ?resp = "''['' @ Format_150405 (clk n) @ ''] Echo: '' @ l @ [nl]"
  have rd: "ReadString nl \<lparr>pdata = concat (map (\<lambda>l. l @ [nl]) (l # ls)) @ tail, pstate = st\<rparr> =
      Some (l @ [nl], None, \<lparr>pdata = ?rest, pstate = st\<rparr>)"
    using ReadString_line[of st nl l ?rest] Cons.prems by simp
  obtain w k1 where
    ws: "bufio_WriteString NewWriter k ?resp = (None, w, k1)"
    and fl: "bufio_Flush (w, k1) = (NewWriter, k\<lparr>delivered := delivered k @ ?resp\<rparr>)"
    using write_flush_healthy[of k ?resp] Cons.prems(1) by auto
  have ih: "chat_loop clk (Suc n) \<lparr>pdata = ?rest, pstate = st\<rparr> NewWriter
              (k\<lparr>delivered := delivered k @ ?resp\<rparr>)
              (lg @ [Log InfoLevel ''Received chat message'' [(''message'', l)]]) =
     \<lparr>final = (k\<lparr>delivered := delivered k @ ?resp\<rparr>)\<lparr>delivered := delivered (k\<lparr>delivered := delivered k @ ?resp\<rparr>) @
                 concat (map (\<lambda>(i, l). ''['' @ Format_150405 (clk i) @ ''] Echo: '' @ l @ [nl])
                           (enumerate (Suc n) ls))\<rparr>,
      status = (if st = Closed then HReturned else HBlocked),
      logs = (lg @ [Log InfoLevel ''Received chat message'' [(''message'', l)]]) @
             map (\<lambda>l. Log InfoLevel ''Received chat message'' [(''message'', l)]) ls\<rparr>"
    using Cons.prems by (intro Cons.IH) simp_all
  show ?case
    using rd ws fl ih
    by (subst chat_loop.simps) (simp add: drop_last_snoc)
qed

lemma handleChat_lines:
  assumes "\<forall>l\<in>set ls. nl \<notin> set l" and "nl \<notin> set tail" and "st \<noteq> Reset"
  shows "handleChat clk \<lparr>inp = \<lparr>pdata = concat (map (\<lambda>l. l @ [nl]) ls) @ tail, pstate = st\<rparr>,
                          outp = \<lparr>delivered = [], healthy = True\<rparr>\<rparr> =
     \<lparr>final = \<lparr>delivered = concat (map (\<lambda>(i, l). ''['' @ Format_150405 (clk i) @ ''] Echo: '' @ l @ [nl])
                           (enumerate 0 ls)), healthy = True\<rparr>,
      status = (if st = Closed then HReturned else HBlocked),
      logs = Log DebugLevel ''Received chat connection'' [] #
             map (\<lambda>l. Log InfoLevel ''Received chat message'' [(''message'', l)]) ls\<rparr>"
  using chat_loop_lines[of "\<lparr>delivered = [], healthy = True\<rparr>" ls tail st clk 0
      "[Log DebugLevel ''Received chat connection'' []]"] assms
  by (simp add: handleChat_def)

lemma SendChatMessage_lines:
  assumes "ph_host p peerID = Some r"
    and "handlers r ChatProtocol = Some handleChat"
    and "up_ok r" and "down_ok r"
    and "m @ [nl] = concat (map (\<lambda>l. l @ [nl]) (l # ls))"
    and "\<forall>l\<in>set (l # ls). nl \<notin> set l"
  shows "SendChatMessage p peerID m =
           Return (Inr (''['' @ Format_150405 (clock r 0) @ ''] Echo: '' @ l))"
proof -
  let ?k0 = "\<lparr>delivered = [], healthy = True\<rparr>"
  let ?s = "\<lparr>remote = handleChat, rclock = clock r, up = ?k0,
             up_closed = False, back_ok = True\<rparr>"
  have ns: "NewStream (ph_host p) peerID ChatProtocol = Inr ?s"
    using assms by (simp add: NewStream_def)
  obtain w k where
    ws: "bufio_WriteString NewWriter ?k0 (m @ [nl]) = (None, w, k)"
    and fl: "bufio_Flush (w, k) = (NewWriter, \<lparr>delivered = m @ [nl], healthy = True\<rparr>)"
    using write_flush_healthy[of ?k0 "m @ [nl]"] by auto
  let ?s1 = "\<lparr>remote = handleChat, rclock = clock r, up = \<lparr>delivered = m @ [nl], healthy = True\<rparr>,
             up_closed = False, back_ok = True\<rparr>"
  let ?line = "''['' @ Format_150405 (clock r 0) @ ''] Echo: '' @ l"
  let ?after = "concat (map (\<lambda>(i, l). ''['' @ Format_150405 (clock r i) @ ''] Echo: '' @ l @ [nl])
                           (enumerate (Suc 0) ls))"
  have hc: "handleChat (clock r) \<lparr>inp = \<lparr>pdata = m @ [nl], pstate = Open\<rparr>, outp = ?k0\<rparr> =
     \<lparr>final = \<lparr>delivered = concat (map (\<lambda>(i, l). ''['' @ Format_150405 (clock r i) @ ''] Echo: '' @ l @ [nl])
                           (enumerate 0 (l # ls))), healthy = True\<rparr>,
      status = HBlocked,
      logs = Log DebugLevel ''Received chat connection'' [] #
             map (\<lambda>l. Log InfoLevel ''Received chat message'' [(''message'', l)]) (l # ls)\<rparr>"
    using handleChat_lines[of "l # ls" "[]" Open "clock r"] assms(5,6) by simp
  have rp: "reply ?s1 = \<lparr>pdata = ?line @ nl # ?after, pstate = Open\<rparr>"
    by (simp add: reply_def remote_run_def hc)
  have "nl \<notin> set ?line"
    using assms(6) by (simp add: Format_150405_no_nl)
  then have rd: "ReadString nl (reply ?s1) = Some (?line @ [nl], None, \<lparr>pdata = ?after, pstate = Open\<rparr>)"
    unfolding rp by (intro ReadString_line) auto
  have dl: "drop_last (?line @ [nl]) = Some ?line"
    by (rule drop_last_snoc)
  show ?thesis
    using ns ws fl rd dl by (simp add: SendChatMessage_def)
qed


lemma Format_demo: "Format_150405 45296 = ''12:34:56''"
  by (simp add: Format_150405_def two_digits_def digit_def)

lemma Contains_append: "Contains (a @ s @ b) s"
  unfolding Contains_iff by blast



section \<open>Facts about the connection wait\<close>


lemma isConnected_loop_iff: "isConnected_loop peers peerID \<longleftrightarrow> peerID \<in> set peers"
  by (induction peers) auto

lemma isConnected_iff: "isConnected node peerID \<longleftrightarrow> peerID \<in> set (Peers node)"
  by (simp add: isConnected_def isConnected_loop_iff)

lemma fold_max_ge: "a \<le> fold max xs (a::nat)"
  by (induction xs arbitrary: a) (auto intro: order_trans[OF max.cobounded2])

lemma fold_max_bound: "x \<in> set xs \<Longrightarrow> x \<le> fold max xs (a::nat)"
proof (induction xs arbitrary: a)
  case Nil
  then show ?case by simp
next
  case (Cons y ys)
  show ?case
  proof (cases "x = y")
    case True
    have "y \<le> max y a" by simp
    also have "\<dots> \<le> fold max ys (max y a)" by (rule fold_max_ge)
    finally show ?thesis using True by simp
  next
    case False
    with Cons show ?thesis by simp
  qed
qed

lemma new_address_fresh: "new_address used \<notin> set used"
  using fold_max_bound[of "new_address used" used 0] by (auto simp: new_address_def)

lemma StopNotify_Notify:
  "StopNotify (Notify h (new_address (notifiees h))) (new_address (notifiees h)) = h"
  by (simp add: StopNotify_def Notify_def new_address_fresh)

lemma notify_guarded:
  assumes "guarded n"
  shows "\<exists>n'. notify e n = Return n' \<and> guarded n' \<and> targetPeer n' = targetPeer n
            \<and> (connected n' = ChanClosed) = (connected n = ChanClosed \<or> e = EvConnected (targetPeer n))"
  using assms
  by (cases e; cases "connected n")
     (auto simp: guarded_def notifiee_Connected_def close_chan_def)

lemma deliver_guarded:
  assumes "guarded n"
  shows "\<exists>n'. deliver es n = Return n' \<and> guarded n' \<and> targetPeer n' = targetPeer n
            \<and> (connected n' = ChanClosed) = (connected n = ChanClosed \<or> EvConnected (targetPeer n) \<in> set es)"
  using assms
proof (induction es arbitrary: n)
  case Nil
  then show ?case by simp
next
  case (Cons e es)
  from notify_guarded[OF Cons.prems, of e] obtain n1 where
    n1: "notify e n = Return n1" "guarded n1" "targetPeer n1 = targetPeer n"
      "(connected n1 = ChanClosed) = (connected n = ChanClosed \<or> e = EvConnected (targetPeer n))"
    by blast
  from Cons.IH[OF n1(2)] obtain n' where
    n': "deliver es n1 = Return n'" "guarded n'" "targetPeer n' = targetPeer n1"
      "(connected n' = ChanClosed) = (connected n1 = ChanClosed \<or> EvConnected (targetPeer n1) \<in> set es)"
    by blast
  show ?case
    using n1 n' by auto
qed

lemma WaitForConnection_result:
  "WaitForConnection ctx node1 node2 timeout subscribed evs =
     Return (if (ID node2 \<in> set (Peers node1) \<and> ID node1 \<in> set (Peers node2))
                \<or> (\<exists>t. (t, EvConnected (ID node2)) \<in> set evs \<and> subscribed \<le> t
                        \<and> t < WithTimeout ctx timeout)
             then None else Some (Errorf ''timeout waiting for connection'' []),
             node1)"
proof (cases "ID node2 \<in> set (Peers node1) \<and> ID node1 \<in> set (Peers node2)")
  case True
  then show ?thesis by (simp add: WaitForConnection_def isConnected_iff)
next
  case False
  let ?n0 = "\<lparr>targetPeer = ID node2, connected = ChanOpen, notified = False\<rparr>"
  let ?heard = "map snd (filter (\<lambda>(t, e). subscribed \<le> t \<and> t < WithTimeout ctx timeout) evs)"
  have g: "guarded ?n0" by (simp add: guarded_def)
  from deliver_guarded[OF g, of ?heard] obtain n' where
    n': "deliver ?heard ?n0 = Return n'"
      "(connected n' = ChanClosed) = (EvConnected (ID node2) \<in> set ?heard)"
    by auto
  have h: "(EvConnected (ID node2) \<in> set ?heard) =
           (\<exists>t. (t, EvConnected (ID node2)) \<in> set evs \<and> subscribed \<le> t \<and> t < WithTimeout ctx timeout)"
    by force
  show ?thesis
    using False n' h
    by (cases "connected n'") (simp_all add: WaitForConnection_def isConnected_iff StopNotify_Notify Let_def)
qed


section \<open>Facts about the polling loop and the interleaved notifiee\<close>


lemma ticker_loop_None:
  "0 < iv \<Longrightarrow> (ticker_loop iv d c t = None) = (\<forall>j. t + j * iv < d \<longrightarrow> \<not> c (t + j * iv))"
proof (induction iv d c t rule: ticker_loop.induct)
  case (1 interval deadline check t)
  show ?case
  proof (cases "deadline \<le> t")
    case True
    then show ?thesis
      by (subst ticker_loop.simps) (simp add: trans_le_add1 not_less)
  next
    case False
    show ?thesis
    proof (cases "check t")
      case True
      have "t + 0 * interval < deadline \<and> check (t + 0 * interval)"
        using False True by simp
      then have "\<not> (\<forall>j. t + j * interval < deadline \<longrightarrow> \<not> check (t + j * interval))"
        by blast
      then show ?thesis
        using False True "1.prems" by (subst ticker_loop.simps) simp
    next
      case nc: False
      have ih: "(ticker_loop interval deadline check (t + interval) = None) =
                (\<forall>j. t + interval + j * interval < deadline \<longrightarrow> \<not> check (t + interval + j * interval))"
        using "1.IH" False nc "1.prems" by simp
      have sp: "(\<forall>j. t + j * interval < deadline \<longrightarrow> \<not> check (t + j * interval)) =
                (\<forall>j. t + interval + j * interval < deadline \<longrightarrow> \<not> check (t + interval + j * interval))"
      proof
        assume a: "\<forall>j. t + j * interval < deadline \<longrightarrow> \<not> check (t + j * interval)"
        show "\<forall>j. t + interval + j * interval < deadline \<longrightarrow> \<not> check (t + interval + j * interval)"
        proof (intro allI impI)
          fix j assume "t + interval + j * interval < deadline"
          then have "t + Suc j * interval < deadline" by (simp add: add.assoc)
          with a have "\<not> check (t + Suc j * interval)" by blast
          then show "\<not> check (t + interval + j * interval)" by (simp add: add.assoc)
        qed
      next
        assume a: "\<forall>j. t + interval + j * interval < deadline \<longrightarrow> \<not> check (t + interval + j * interval)"
        show "\<forall>j. t + j * interval < deadline \<longrightarrow> \<not> check (t + j * interval)"
        proof (intro allI impI)
          fix j assume b: "t + j * interval < deadline"
          show "\<not> check (t + j * interval)"
          proof (cases j)
            case 0
            with nc show ?thesis by simp
          next
            case (Suc i)
            with b have "t + interval + i * interval < deadline" by (simp add: add.assoc)
            with a have "\<not> check (t + interval + i * interval)" by blast
            with Suc show ?thesis by (simp add: add.assoc)
          qed
        qed
      qed
      have "ticker_loop interval deadline check t = ticker_loop interval deadline check (t + interval)"
        using False nc "1.prems" by (subst ticker_loop.simps) simp
      with ih sp show ?thesis by simp
    qed
  qed
qed

lemma ticker_loop_polls:
  assumes "0 < iv"
  shows "(ticker_loop iv d c iv = None) = (\<not> (\<exists>k. 0 < k \<and> iv * k < d \<and> c (iv * k)))"
proof -
  have "(\<forall>j. iv + j * iv < d \<longrightarrow> \<not> c (iv + j * iv)) = (\<not> (\<exists>k. 0 < k \<and> iv * k < d \<and> c (iv * k)))"
  proof
    assume a: "\<forall>j. iv + j * iv < d \<longrightarrow> \<not> c (iv + j * iv)"
    show "\<not> (\<exists>k. 0 < k \<and> iv * k < d \<and> c (iv * k))"
    proof
      assume "\<exists>k. 0 < k \<and> iv * k < d \<and> c (iv * k)"
      then obtain k where k: "0 < k" "iv * k < d" "c (iv * k)" by blast
      then obtain j where j: "k = Suc j" by (cases k) auto
      have e: "iv + j * iv = iv * k" using j by (simp add: mult.commute)
      from a have "iv + j * iv < d \<longrightarrow> \<not> c (iv + j * iv)" by blast
      with k e show False by simp
    qed
  next
    assume a: "\<not> (\<exists>k. 0 < k \<and> iv * k < d \<and> c (iv * k))"
    show "\<forall>j. iv + j * iv < d \<longrightarrow> \<not> c (iv + j * iv)"
    proof (intro allI impI)
      fix j assume b: "iv + j * iv < d"
      have e: "iv + j * iv = iv * Suc j" by (simp add: mult.commute)
      from a have "\<not> (0 < Suc j \<and> iv * Suc j < d \<and> c (iv * Suc j))" by blast
      with b e show "\<not> c (iv + j * iv)" by (simp add: mult.commute)
    qed
  qed
  with ticker_loop_None[OF assms, of d c iv] show ?thesis by simp
qed

lemma WaitForPeerCount_result:
  "WaitForPeerCount ctx node n timeout =
     (if \<exists>k. 0 < k \<and> 100 * k < WithTimeout ctx timeout
              \<and> n \<le> int (length (Peers (node (100 * k))))
      then None
      else Some (Errorf ''timeout: expected %d peers, got %d''
                   [ArgInt n, ArgInt (int (length (Peers (node (WithTimeout ctx timeout)))))]))"
  using ticker_loop_polls[of 100 "WithTimeout ctx timeout" "\<lambda>t. n \<le> int (length (Peers (node t)))"]
  by (auto simp: WaitForPeerCount_def Let_def split: option.splits)

lemma WaitForPeerCount_short_timeout:
  "WaitForPeerCount None steady_host 1 50 =
     Some (Errorf ''timeout: expected %d peers, got %d'' [ArgInt 1, ArgInt 1])"
  by (simp add: WaitForPeerCount_def WithTimeout_def ticker_loop.simps steady_host_def)

lemma WaitWithCondition_short_timeout:
  "WaitWithCondition None (\<lambda>t. 1 \<le> int (length (Peers (steady_host t)))) 50 100 = Return None"
  by (simp add: WaitWithCondition_def steady_host_def)

lemma run_schedule_sequential:
  "run_schedule [0, 0, 0, 1, 1, 1] demo_calls =
     Return \<lparr>shared = \<lparr>targetPeer = ''B'', connected = ChanClosed, notified = True\<rparr>,
             running = [(''B'', Finished), (''B'', Finished)]\<rparr>"
  by (simp add: demo_calls_def step_call_def close_chan_def)

lemma run_schedule_one_call:
  "run_schedule [0, 0, 0] \<lparr>shared = n, running = [(remotePeer, AtGuard)]\<rparr> =
     (case notifiee_Connected n remotePeer of
        Return n' \<Rightarrow> Return \<lparr>shared = n', running = [(remotePeer, Finished)]\<rparr>
      | Hang \<Rightarrow> Hang
      | Panic \<Rightarrow> Panic)"
  by (cases "connected n") (auto simp: step_call_def close_chan_def notifiee_Connected_def)

section \<open>Echo\<close>

text \<open>
  C1. For every byte sequence \<open>b\<close> (the empty one, and those with newlines or bytes that
  are not UTF-8, included), \<open>SendEcho\<close> against a reachable peer whose echo protocol is
  served by \<open>handleEcho\<close>, over a working stream, returns exactly \<open>b\<close>: it writes \<open>b\<close>,
  closes its write side and reads to the end of the stream.
\<close>

theorem SendEcho_roundtrip:
  assumes "ph_host p peerID = Some r"
    and "handlers r EchoProtocol = Some handleEcho"
    and "up_ok r" and "down_ok r"
  shows "SendEcho p peerID b = Return (Inr b)"
proof -
  let ?s = "\<lparr>remote = handleEcho, rclock = clock r, up = \<lparr>delivered = [], healthy = True\<rparr>,
             up_closed = False, back_ok = True\<rparr>"
  have ns: "NewStream (ph_host p) peerID EchoProtocol = Inr ?s"
    using assms by (simp add: NewStream_def)
  let ?s1 = "\<lparr>remote = handleEcho, rclock = clock r, up = \<lparr>delivered = b, healthy = True\<rparr>,
             up_closed = False, back_ok = True\<rparr>"
  have wr: "stream_Write ?s b = Inr ?s1"
    by (simp add: stream_Write_def sink_Write_def)
  have rp: "reply (CloseWrite ?s1) = \<lparr>pdata = b, pstate = Closed\<rparr>"
    by (simp add: reply_def remote_run_def CloseWrite_def handleEcho_closed)
  show ?thesis
    by (simp add: SendEcho_def ns wr rp io_ReadAll_closed)
qed

theorem SendEcho_roundtrip_witness:
  "ph_host demo_handler ''QmServer'' = Some demo_peer
   \<and> handlers demo_peer EchoProtocol = Some handleEcho
   \<and> up_ok demo_peer \<and> down_ok demo_peer
   \<and> SendEcho demo_handler ''QmServer'' demo_binary = Return (Inr demo_binary)
   \<and> SendEcho demo_handler ''QmServer'' [] = Return (Inr [])"
proof -
  have h: "ph_host demo_handler ''QmServer'' = Some demo_peer"
    by (simp add: demo_handler_def)
  have e: "handlers demo_peer EchoProtocol = Some handleEcho"
    by (simp add: demo_peer_def SetupProtocols_def)
  have u: "up_ok demo_peer" and d: "down_ok demo_peer"
    by (simp_all add: demo_peer_def)
  show ?thesis
    using h e u d SendEcho_roundtrip [OF h e u d, of demo_binary]
      SendEcho_roundtrip [OF h e u d, of "[]"]
    by simp
qed

section \<open>Ping\<close>

text \<open>
  C5. For every message \<open>m\<close> without a newline, \<open>SendPing\<close> against a reachable peer whose
  ping protocol is served by \<open>handlePing\<close>, over a working stream, succeeds and returns
  \<open>pong: \<close> followed by \<open>m\<close>, a string that contains \<open>m\<close> and \<open>pong: \<close>. On the wire the
  handler answers the line it received with \<open>pong: \<close> followed by that line with its
  newline, and it answers one line only: whatever follows the first line on the stream,
  it writes that one response and returns, which closes the stream.
\<close>

theorem SendPing_exchange:
  assumes "ph_host p peerID = Some r"
    and "handlers r PingProtocol = Some handlePing"
    and "up_ok r" and "down_ok r"
    and "nl \<notin> set m"
    and "st \<noteq> Reset"
  shows "SendPing p peerID m = Return (Inr (''pong: '' @ m))
       \<and> Contains (''pong: '' @ m) m
       \<and> Contains (''pong: '' @ m) ''pong: ''
       \<and> final (handlePing clk \<lparr>inp = \<lparr>pdata = m @ nl # rest, pstate = st\<rparr>,
                                  outp = \<lparr>delivered = [], healthy = True\<rparr>\<rparr>)
           = \<lparr>delivered = ''pong: '' @ m @ [nl], healthy = True\<rparr>
       \<and> status (handlePing clk \<lparr>inp = \<lparr>pdata = m @ nl # rest, pstate = st\<rparr>,
                                   outp = \<lparr>delivered = [], healthy = True\<rparr>\<rparr>)
           = HReturned"
proof -
  have a: "SendPing p peerID m = Return (Inr (''pong: '' @ m))"
    using assms(1-5) by (rule SendPing_pong)
  have b: "Contains (''pong: '' @ m) m"
    using Contains_append[of "''pong: ''" m "[]"] by simp
  have c: "Contains (''pong: '' @ m) ''pong: ''"
    using Contains_append[of "[]" "''pong: ''" m] by simp
  show ?thesis
    using a b c handlePing_line[OF assms(6,5), of clk rest] by simp
qed

theorem SendPing_exchange_witness:
  "SendPing demo_handler ''QmServer'' ''hello'' = Return (Inr ''pong: hello'')
   \<and> Contains ''pong: hello'' ''hello''
   \<and> Contains ''pong: hello'' ''pong: ''
   \<and> final (handlePing (\<lambda>k. 0) \<lparr>inp = \<lparr>pdata = ''hello'' @ nl # ''again'' @ [nl], pstate = Open\<rparr>,
                                  outp = \<lparr>delivered = [], healthy = True\<rparr>\<rparr>)
       = \<lparr>delivered = ''pong: hello'' @ [nl], healthy = True\<rparr>
   \<and> status (handlePing (\<lambda>k. 0) \<lparr>inp = \<lparr>pdata = ''hello'' @ nl # ''again'' @ [nl], pstate = Open\<rparr>,
                                   outp = \<lparr>delivered = [], healthy = True\<rparr>\<rparr>)
       = HReturned"
proof -
  have h: "ph_host demo_handler ''QmServer'' = Some demo_peer"
    by (simp add: demo_handler_def)
  have e: "handlers demo_peer PingProtocol = Some handlePing"
    by (simp add: demo_peer_def SetupProtocols_def PingProtocol_def ChatProtocol_def EchoProtocol_def)
  have u: "up_ok demo_peer" and d: "down_ok demo_peer"
    by (simp_all add: demo_peer_def)
  have n: "nl \<notin> set ''hello''" by simp
  have s: "Open \<noteq> Reset" by simp
  show ?thesis
    using SendPing_exchange [OF h e u d n s, of "\<lambda>k. 0" "''again'' @ [nl]"] by simp
qed


section \<open>Chat\<close>

text \<open>
  C6, as the code has it. The claim is made for all message strings; the client reads one
  line of the answer, so for a message with an embedded newline it returns the answer to
  the first line only, which does not contain the message.
\<close>

theorem SendChatMessage_newline_counterexample:
  "SendChatMessage demo_handler ''QmServer'' demo_two_lines = Return (Inr ''[12:34:56] Echo: a'')
   \<and> \<not> Contains ''[12:34:56] Echo: a'' demo_two_lines"
proof -
  have h: "ph_host demo_handler ''QmServer'' = Some demo_peer"
    by (simp add: demo_handler_def)
  have u: "up_ok demo_peer" and d: "down_ok demo_peer"
    by (simp_all add: demo_peer_def)
  have ec: "handlers demo_peer ChatProtocol = Some handleChat"
    by (simp add: demo_peer_def SetupProtocols_def PingProtocol_def ChatProtocol_def EchoProtocol_def)
  have c0: "clock demo_peer 0 = 45296"
    by (simp add: demo_peer_def)
  have "SendChatMessage demo_handler ''QmServer'' demo_two_lines =
          Return (Inr (''['' @ Format_150405 (clock demo_peer 0) @ ''] Echo: '' @ ''a''))"
    by (rule SendChatMessage_lines [OF h ec u d, of demo_two_lines "''a''" "[''b'']"])
       (simp_all add: demo_two_lines_def)
  then have a: "SendChatMessage demo_handler ''QmServer'' demo_two_lines =
          Return (Inr ''[12:34:56] Echo: a'')"
    by (simp add: c0 Format_demo)
  have b: "\<not> Contains ''[12:34:56] Echo: a'' demo_two_lines"
    by (simp add: demo_two_lines_def)
  from a b show ?thesis by simp
qed

text \<open>
  C6, amended. For every message \<open>m\<close> without a newline, \<open>SendChatMessage\<close> against a
  reachable peer whose chat protocol is served by \<open>handleChat\<close>, over a working stream,
  returns \<open>[HH:MM:SS] Echo: \<close> followed by \<open>m\<close>, a string that contains \<open>m\<close> and
  \<open>Echo: \<close>. For each line it receives the handler writes back \<open>[\<close>, its local time,
  \<open>] Echo: \<close> and the line with its newline; bytes after the last newline get no answer.
  At a clean end of the stream the handler returns without logging an error, and while
  the stream stays open it waits for the next line.
\<close>

theorem SendChatMessage_exchange:
  assumes "ph_host p peerID = Some r"
    and "handlers r ChatProtocol = Some handleChat"
    and "up_ok r" and "down_ok r"
    and "nl \<notin> set m"
    and "\<forall>l\<in>set ls. nl \<notin> set l"
    and "nl \<notin> set tail"
  shows "SendChatMessage p peerID m =
           Return (Inr (''['' @ Format_150405 (clock r 0) @ ''] Echo: '' @ m))
       \<and> Contains (''['' @ Format_150405 (clock r 0) @ ''] Echo: '' @ m) m
       \<and> Contains (''['' @ Format_150405 (clock r 0) @ ''] Echo: '' @ m) ''Echo: ''
       \<and> delivered (final (handleChat clk
             \<lparr>inp = \<lparr>pdata = concat (map (\<lambda>l. l @ [nl]) ls) @ tail, pstate = Closed\<rparr>,
              outp = \<lparr>delivered = [], healthy = True\<rparr>\<rparr>))
           = concat (map (\<lambda>(i, l). ''['' @ Format_150405 (clk i) @ ''] Echo: '' @ l @ [nl])
                       (enumerate 0 ls))
       \<and> status (handleChat clk
             \<lparr>inp = \<lparr>pdata = concat (map (\<lambda>l. l @ [nl]) ls) @ tail, pstate = Closed\<rparr>,
              outp = \<lparr>delivered = [], healthy = True\<rparr>\<rparr>) = HReturned
       \<and> ErrorLevel \<notin> entry_level ` set (logs (handleChat clk
             \<lparr>inp = \<lparr>pdata = concat (map (\<lambda>l. l @ [nl]) ls) @ tail, pstate = Closed\<rparr>,
              outp = \<lparr>delivered = [], healthy = True\<rparr>\<rparr>))
       \<and> delivered (final (handleChat clk
             \<lparr>inp = \<lparr>pdata = concat (map (\<lambda>l. l @ [nl]) ls) @ tail, pstate = Open\<rparr>,
              outp = \<lparr>delivered = [], healthy = True\<rparr>\<rparr>))
           = concat (map (\<lambda>(i, l). ''['' @ Format_150405 (clk i) @ ''] Echo: '' @ l @ [nl])
                       (enumerate 0 ls))
       \<and> status (handleChat clk
             \<lparr>inp = \<lparr>pdata = concat (map (\<lambda>l. l @ [nl]) ls) @ tail, pstate = Open\<rparr>,
              outp = \<lparr>delivered = [], healthy = True\<rparr>\<rparr>) = HBlocked"
proof -
  let ?line = "''['' @ Format_150405 (clock r 0) @ ''] Echo: ''"
  have a: "SendChatMessage p peerID m = Return (Inr (?line @ m))"
    using SendChatMessage_lines [OF assms(1-4), of m m "[]"] assms(5) by simp
  have b: "Contains (?line @ m) m"
    using Contains_append [of ?line m "[]"] by simp
  have c: "Contains (?line @ m) ''Echo: ''"
    using Contains_append [of "''['' @ Format_150405 (clock r 0) @ ''] ''" "''Echo: ''" m] by simp
  have cl: "Closed \<noteq> Reset" and op: "Open \<noteq> Reset"
    by simp_all
  note hc = handleChat_lines [OF assms(6,7) cl, of clk]
  note ho = handleChat_lines [OF assms(6,7) op, of clk]
  have e: "ErrorLevel \<notin> entry_level ` set (logs (handleChat clk
             \<lparr>inp = \<lparr>pdata = concat (map (\<lambda>l. l @ [nl]) ls) @ tail, pstate = Closed\<rparr>,
              outp = \<lparr>delivered = [], healthy = True\<rparr>\<rparr>))"
    unfolding hc by auto
  show ?thesis
    using a b c e unfolding hc ho by simp
qed

theorem SendChatMessage_exchange_witness:
  "SendChatMessage demo_handler ''QmServer'' ''hello'' = Return (Inr ''[12:34:56] Echo: hello'')
   \<and> Contains ''[12:34:56] Echo: hello'' ''hello''
   \<and> Contains ''[12:34:56] Echo: hello'' ''Echo: ''
   \<and> delivered (final (handleChat (\<lambda>k. 45296 + k)
         \<lparr>inp = \<lparr>pdata = ''hi'' @ [nl] @ ''there'' @ [nl] @ ''par'', pstate = Closed\<rparr>,
          outp = \<lparr>delivered = [], healthy = True\<rparr>\<rparr>))
       = ''[12:34:56] Echo: hi'' @ [nl] @ ''[12:34:57] Echo: there'' @ [nl]
   \<and> status (handleChat (\<lambda>k. 45296 + k)
         \<lparr>inp = \<lparr>pdata = ''hi'' @ [nl] @ ''there'' @ [nl] @ ''par'', pstate = Closed\<rparr>,
          outp = \<lparr>delivered = [], healthy = True\<rparr>\<rparr>) = HReturned
   \<and> status (handleChat (\<lambda>k. 45296 + k)
         \<lparr>inp = \<lparr>pdata = ''hi'' @ [nl] @ ''there'' @ [nl] @ ''par'', pstate = Open\<rparr>,
          outp = \<lparr>delivered = [], healthy = True\<rparr>\<rparr>) = HBlocked"
proof -
  have h: "ph_host demo_handler ''QmServer'' = Some demo_peer"
    by (simp add: demo_handler_def)
  have u: "up_ok demo_peer" and d: "down_ok demo_peer"
    by (simp_all add: demo_peer_def)
  have ec: "handlers demo_peer ChatProtocol = Some handleChat"
    by (simp add: demo_peer_def SetupProtocols_def PingProtocol_def ChatProtocol_def EchoProtocol_def)
  have c0: "clock demo_peer 0 = 45296"
    by (simp add: demo_peer_def)
  have n: "nl \<notin> set ''hello''" by simp
  have ls: "\<forall>l\<in>set [''hi'', ''there'']. nl \<notin> set l" by simp
  have t: "nl \<notin> set ''par''" by simp
  have f1: "Format_150405 45297 = ''12:34:57''"
    by (simp add: Format_150405_def two_digits_def digit_def)
  have en: "enumerate 0 [''hi'', ''there''] = [(0, ''hi''), (Suc 0, ''there'')]"
    by (simp add: enumerate_eq_zip upt_rec)
  show ?thesis
    using SendChatMessage_exchange [OF h ec u d n ls t, of "\<lambda>k. 45296 + k"]
    by (simp add: c0 Format_demo f1)
qed

section \<open>The newline of the response\<close>

text \<open>
  C10. When \<open>SendPing\<close> or \<open>SendChatMessage\<close> succeeds with \<open>r\<close>, the bytes the client
  could read on its stream after its flush begin with the response line \<open>r\<close> followed by
  a newline: \<open>r\<close> is that line without its last character, the delimiter, so \<open>r\<close> holds
  no newline and does not end with one.
\<close>

theorem Send_strips_newline:
  "(SendPing p peerID m = Return (Inr r) \<longrightarrow>
      (\<exists>s w k w' k' response rest.
         NewStream (ph_host p) peerID PingProtocol = Inr s
         \<and> bufio_WriteString NewWriter (up s) (m @ [nl]) = (None, w, k)
         \<and> bufio_Flush (w, k) = (w', k')
         \<and> pdata (reply (s\<lparr>up := k'\<rparr>)) = response @ rest
         \<and> response = r @ [nl] \<and> drop_last response = Some r)
      \<and> nl \<notin> set r \<and> (\<forall>x. r \<noteq> x @ [nl]))
   \<and> (SendChatMessage p peerID m = Return (Inr r) \<longrightarrow>
      (\<exists>s w k w' k' response rest.
         NewStream (ph_host p) peerID ChatProtocol = Inr s
         \<and> bufio_WriteString NewWriter (up s) (m @ [nl]) = (None, w, k)
         \<and> bufio_Flush (w, k) = (w', k')
         \<and> pdata (reply (s\<lparr>up := k'\<rparr>)) = response @ rest
         \<and> response = r @ [nl] \<and> drop_last response = Some r)
      \<and> nl \<notin> set r \<and> (\<forall>x. r \<noteq> x @ [nl]))"
proof (intro conjI impI)
  assume a: "SendPing p peerID m = Return (Inr r)"
  then obtain s where ns: "NewStream (ph_host p) peerID PingProtocol = Inr s"
    by (auto simp: SendPing_def split: sum.splits)
  obtain e w k where ws: "bufio_WriteString NewWriter (up s) (m @ [nl]) = (e, w, k)"
    by (cases "bufio_WriteString NewWriter (up s) (m @ [nl])") auto
  with a ns have e: "e = None"
    by (auto simp: SendPing_def split: option.splits)
  obtain w' k' where fl: "bufio_Flush (w, k) = (w', k')"
    by (cases "bufio_Flush (w, k)") auto
  from a ns ws e fl obtain response rd where
    rd: "ReadString nl (reply (s\<lparr>up := k'\<rparr>)) = Some (response, None, rd)"
    and dl: "drop_last response = Some r"
    by (auto simp: SendPing_def split: option.splits)
  from ReadString_ok[OF rd] obtain r' where
    r': "response = r' @ [nl]" "nl \<notin> set r'" "pdata (reply (s\<lparr>up := k'\<rparr>)) = response @ pdata rd"
    by blast
  with dl have rr: "r = r'" by (simp add: drop_last_snoc)
  show "\<exists>s w k w' k' response rest.
         NewStream (ph_host p) peerID PingProtocol = Inr s
         \<and> bufio_WriteString NewWriter (up s) (m @ [nl]) = (None, w, k)
         \<and> bufio_Flush (w, k) = (w', k')
         \<and> pdata (reply (s\<lparr>up := k'\<rparr>)) = response @ rest
         \<and> response = r @ [nl] \<and> drop_last response = Some r"
    using ns ws e fl r' rr dl by blast
  show "nl \<notin> set r" using r' rr by simp
  then show "\<forall>x. r \<noteq> x @ [nl]" by auto
next
  assume a: "SendChatMessage p peerID m = Return (Inr r)"
  then obtain s where ns: "NewStream (ph_host p) peerID ChatProtocol = Inr s"
    by (auto simp: SendChatMessage_def split: sum.splits)
  obtain e w k where ws: "bufio_WriteString NewWriter (up s) (m @ [nl]) = (e, w, k)"
    by (cases "bufio_WriteString NewWriter (up s) (m @ [nl])") auto
  with a ns have e: "e = None"
    by (auto simp: SendChatMessage_def split: option.splits)
  obtain w' k' where fl: "bufio_Flush (w, k) = (w', k')"
    by (cases "bufio_Flush (w, k)") auto
  from a ns ws e fl obtain response rd where
    rd: "ReadString nl (reply (s\<lparr>up := k'\<rparr>)) = Some (response, None, rd)"
    and dl: "drop_last response = Some r"
    by (auto simp: SendChatMessage_def split: option.splits)
  from ReadString_ok[OF rd] obtain r' where
    r': "response = r' @ [nl]" "nl \<notin> set r'" "pdata (reply (s\<lparr>up := k'\<rparr>)) = response @ pdata rd"
    by blast
  with dl have rr: "r = r'" by (simp add: drop_last_snoc)
  show "\<exists>s w k w' k' response rest.
         NewStream (ph_host p) peerID ChatProtocol = Inr s
         \<and> bufio_WriteString NewWriter (up s) (m @ [nl]) = (None, w, k)
         \<and> bufio_Flush (w, k) = (w', k')
         \<and> pdata (reply (s\<lparr>up := k'\<rparr>)) = response @ rest
         \<and> response = r @ [nl] \<and> drop_last response = Some r"
    using ns ws e fl r' rr dl by blast
  show "nl \<notin> set r" using r' rr by simp
  then show "\<forall>x. r \<noteq> x @ [nl]" by auto
qed

theorem Send_strips_newline_witness:
  "SendPing demo_handler ''QmServer'' ''hello'' = Return (Inr ''pong: hello'')
   \<and> (\<exists>s w k w' k' response rest.
         NewStream (ph_host demo_handler) ''QmServer'' PingProtocol = Inr s
         \<and> bufio_WriteString NewWriter (up s) (''hello'' @ [nl]) = (None, w, k)
         \<and> bufio_Flush (w, k) = (w', k')
         \<and> pdata (reply (s\<lparr>up := k'\<rparr>)) = response @ rest
         \<and> response = ''pong: hello'' @ [nl] \<and> drop_last response = Some ''pong: hello'')
   \<and> SendChatMessage demo_handler ''QmServer'' ''hello'' = Return (Inr ''[12:34:56] Echo: hello'')
   \<and> (\<exists>s w k w' k' response rest.
         NewStream (ph_host demo_handler) ''QmServer'' ChatProtocol = Inr s
         \<and> bufio_WriteString NewWriter (up s) (''hello'' @ [nl]) = (None, w, k)
         \<and> bufio_Flush (w, k) = (w', k')
         \<and> pdata (reply (s\<lparr>up := k'\<rparr>)) = response @ rest
         \<and> response = ''[12:34:56] Echo: hello'' @ [nl]
         \<and> drop_last response = Some ''[12:34:56] Echo: hello'')"
proof -
  have h: "ph_host demo_handler ''QmServer'' = Some demo_peer"
    by (simp add: demo_handler_def)
  have u: "up_ok demo_peer" and d: "down_ok demo_peer"
    by (simp_all add: demo_peer_def)
  have ep: "handlers demo_peer PingProtocol = Some handlePing"
    by (simp add: demo_peer_def SetupProtocols_def PingProtocol_def ChatProtocol_def EchoProtocol_def)
  have ec: "handlers demo_peer ChatProtocol = Some handleChat"
    by (simp add: demo_peer_def SetupProtocols_def PingProtocol_def ChatProtocol_def EchoProtocol_def)
  have a: "SendPing demo_handler ''QmServer'' ''hello'' = Return (Inr ''pong: hello'')"
    using SendPing_pong [OF h ep u d, of "''hello''"] by simp
  have c0: "clock demo_peer 0 = 45296"
    by (simp add: demo_peer_def)
  have b: "SendChatMessage demo_handler ''QmServer'' ''hello'' = Return (Inr ''[12:34:56] Echo: hello'')"
    using SendChatMessage_lines [OF h ec u d, of "''hello''" "''hello''" "[]"]
    by (simp add: c0 Format_demo)
  from a Send_strips_newline [of demo_handler "''QmServer''" "''hello''" "''pong: hello''"]
  have a': "\<exists>s w k w' k' response rest.
         NewStream (ph_host demo_handler) ''QmServer'' PingProtocol = Inr s
         \<and> bufio_WriteString NewWriter (up s) (''hello'' @ [nl]) = (None, w, k)
         \<and> bufio_Flush (w, k) = (w', k')
         \<and> pdata (reply (s\<lparr>up := k'\<rparr>)) = response @ rest
         \<and> response = ''pong: hello'' @ [nl] \<and> drop_last response = Some ''pong: hello''"
    by blast
  from b Send_strips_newline [of demo_handler "''QmServer''" "''hello''" "''[12:34:56] Echo: hello''"]
  have b': "\<exists>s w k w' k' response rest.
         NewStream (ph_host demo_handler) ''QmServer'' ChatProtocol = Inr s
         \<and> bufio_WriteString NewWriter (up s) (''hello'' @ [nl]) = (None, w, k)
         \<and> bufio_Flush (w, k) = (w', k')
         \<and> pdata (reply (s\<lparr>up := k'\<rparr>)) = response @ rest
         \<and> response = ''[12:34:56] Echo: hello'' @ [nl]
         \<and> drop_last response = Some ''[12:34:56] Echo: hello''"
    by blast
  from a a' b b' show ?thesis by blast
qed

section \<open>WaitForConnection\<close>

text \<open>
  C2. The claim: whenever a \<open>Connected\<close> event for the target peer is delivered at any
  point during the wait, the instants between the liveness check and the subscription
  included, \<open>WaitForConnection\<close> returns success. The code checks, then subscribes, and
  does not check again. Here \<open>A\<close> and \<open>B\<close> are not connected at the check, \<open>A\<close>'s network
  delivers \<open>Connected(B)\<close> one millisecond later, and \<open>Notify\<close> registers the notifiee
  one millisecond after that: the call returns the timeout error after five seconds.
\<close>

theorem WaitForConnection_lost_event:
  "WaitForConnection None demo_A demo_B 5000 2 [(1, EvConnected ''B'')] =
     Return (Some (Errorf ''timeout waiting for connection'' []), demo_A)"
  by (simp add: WaitForConnection_result demo_A_def demo_B_def WithTimeout_def)

text \<open>The same event one millisecond later, when the notifiee is registered, ends the wait.\<close>

lemma WaitForConnection_heard_event:
  "WaitForConnection None demo_A demo_B 5000 2 [(2, EvConnected ''B'')] = Return (None, demo_A)"
  by (simp add: WaitForConnection_result demo_A_def demo_B_def WithTimeout_def)


text \<open>
  C3. The claim: when the network runs \<open>Connected\<close> for the target peer several times at
  once, the channel is closed exactly once. The guard is a plain \<^verbatim>\<open>bool\<close> that is read
  and then written. With two calls, when both read the flag before either writes it,
  both go on to close the channel, and the second \<^verbatim>\<open>close\<close> panics.
\<close>

theorem run_schedule_double_close:
  "run_schedule [0, 1, 0, 0, 1, 1] demo_calls = Panic"
  by (simp add: demo_calls_def step_call_def close_chan_def)


section \<open>WaitForPeerCount\<close>

text \<open>
  C4, as the code has it. The claim: success if and only if the peer count reaches the
  expected count within the timeout. The code looks at the count at the ticks of its
  ticker only. Here the count reaches three 220 milliseconds after the call, the ticks at
  100 and 200 find one peer, and the context is done at 250: the call returns the timeout
  error, which reports the three peers it finds then.
\<close>

theorem WaitForPeerCount_late_counterexample:
  "3 \<le> int (length (Peers (late_host 220))) \<and> (220::nat) < 250
   \<and> WaitForPeerCount None late_host 3 250 =
       Some (Errorf ''timeout: expected %d peers, got %d'' [ArgInt 3, ArgInt 3])"
  by (simp add: WaitForPeerCount_def WithTimeout_def ticker_loop.simps late_host_def)


text \<open>
  C4, amended. For a host that has fewer peers than expected at the time of the call,
  \<open>WaitForPeerCount\<close> returns success if and only if the host has at least the expected
  number of peers at one of the polling instants (0, 100, 200, ... milliseconds after the
  call) that come before the context is done; otherwise it returns the timeout error with
  the expected count and the count read when the context is done. What the call does for
  a host that has the expected number of peers already at the call is not part of this
  statement.
\<close>

theorem WaitForPeerCount_polls:
  assumes "int (length (Peers (node 0))) < n"
  shows "WaitForPeerCount ctx node n timeout =
     (if \<exists>k. 100 * k < WithTimeout ctx timeout
              \<and> n \<le> int (length (Peers (node (100 * k))))
      then None
      else Some (Errorf ''timeout: expected %d peers, got %d''
                   [ArgInt n, ArgInt (int (length (Peers (node (WithTimeout ctx timeout)))))]))"
proof -
  have "(\<exists>k. 100 * k < WithTimeout ctx timeout \<and> n \<le> int (length (Peers (node (100 * k)))))
      = (\<exists>k. 0 < k \<and> 100 * k < WithTimeout ctx timeout
              \<and> n \<le> int (length (Peers (node (100 * k)))))"
  proof
    assume "\<exists>k. 100 * k < WithTimeout ctx timeout \<and> n \<le> int (length (Peers (node (100 * k))))"
    then obtain k where k: "100 * k < WithTimeout ctx timeout"
      "n \<le> int (length (Peers (node (100 * k))))"
      by blast
    have "0 < k"
    proof (rule ccontr)
      assume "\<not> 0 < k"
      then have "k = 0" by simp
      with k(2) assms show False by simp
    qed
    with k show "\<exists>k. 0 < k \<and> 100 * k < WithTimeout ctx timeout
              \<and> n \<le> int (length (Peers (node (100 * k))))"
      by blast
  next
    assume "\<exists>k. 0 < k \<and> 100 * k < WithTimeout ctx timeout
              \<and> n \<le> int (length (Peers (node (100 * k))))"
    then show "\<exists>k. 100 * k < WithTimeout ctx timeout
              \<and> n \<le> int (length (Peers (node (100 * k))))"
      by blast
  qed
  then show ?thesis
    by (simp only: WaitForPeerCount_result [of ctx node n timeout])
qed

theorem WaitForPeerCount_polls_witness:
  "int (length (Peers (late_host 0))) < 3
   \<and> WaitForPeerCount None late_host 3 350 = None
   \<and> int (length (Peers (steady_host 0))) < 3
   \<and> WaitForPeerCount None steady_host 3 200 =
       Some (Errorf ''timeout: expected %d peers, got %d'' [ArgInt 3, ArgInt 1])"
proof -
  have a: "int (length (Peers (late_host 0))) < 3"
    by (simp add: late_host_def)
  have b: "int (length (Peers (steady_host 0))) < 3"
    by (simp add: steady_host_def)
  have k: "\<exists>k. 100 * k < WithTimeout None 350
              \<and> 3 \<le> int (length (Peers (late_host (100 * k))))"
    by (rule exI [of _ 3]) (simp add: WithTimeout_def late_host_def)
  have l: "WaitForPeerCount None late_host 3 350 = None"
    using WaitForPeerCount_polls [where node = late_host and n = 3 and ctx = None and timeout = 350]
      a k by simp
  have s: "WaitForPeerCount None steady_host 3 200 =
       Some (Errorf ''timeout: expected %d peers, got %d'' [ArgInt 3, ArgInt 1])"
    using WaitForPeerCount_polls [where node = steady_host and n = 3 and ctx = None and timeout = 200]
      b by (simp add: steady_host_def)
  from a b l s show ?thesis by simp
qed

section \<open>WaitForConnection without an event\<close>

text \<open>
  C7, as the code has it. The claim: \<open>B\<close> in \<open>A\<close>'s peer set is enough for success without
  an event. The check of the code asks for both directions. Here \<open>A\<close> lists \<open>B\<close>, \<open>B\<close>
  does not list \<open>A\<close>, and no event follows: the call returns the timeout error.
\<close>

theorem WaitForConnection_one_sided_counterexample:
  "isConnected demo_A_knows_B (ID demo_B)
   \<and> WaitForConnection None demo_A_knows_B demo_B 5000 2 [] =
       Return (Some (Errorf ''timeout waiting for connection'' []), demo_A_knows_B)"
  by (simp add: WaitForConnection_result isConnected_iff demo_A_knows_B_def demo_A_def demo_B_def)

text \<open>
  C7, amended. When \<open>B\<close> is in \<open>A\<close>'s peer set and \<open>A\<close> is in \<open>B\<close>'s peer set at the time of
  the call, \<open>WaitForConnection\<close> returns success at once: whatever the context, the
  timeout and the events, and with \<open>A\<close> as it was.
\<close>

theorem WaitForConnection_already_connected:
  assumes "isConnected node1 (ID node2)" and "isConnected node2 (ID node1)"
  shows "WaitForConnection ctx node1 node2 timeout subscribed evs = Return (None, node1)"
  using assms by (simp add: WaitForConnection_def)

theorem WaitForConnection_already_connected_witness:
  "isConnected demo_A_knows_B (ID demo_B_knows_A)
   \<and> isConnected demo_B_knows_A (ID demo_A_knows_B)
   \<and> WaitForConnection (Some 0) demo_A_knows_B demo_B_knows_A 0 0 [] =
       Return (None, demo_A_knows_B)"
proof -
  have a: "isConnected demo_A_knows_B (ID demo_B_knows_A)"
    by (simp add: isConnected_def demo_A_knows_B_def demo_B_knows_A_def demo_A_def demo_B_def)
  have b: "isConnected demo_B_knows_A (ID demo_A_knows_B)"
    by (simp add: isConnected_def demo_A_knows_B_def demo_B_knows_A_def demo_A_def demo_B_def)
  show ?thesis
    using a b WaitForConnection_already_connected [OF a b, of "Some 0" 0 0 "[]"] by simp
qed

section \<open>Timeout errors\<close>

text \<open>
  C8, as the code has it. The claim: the timeout error of every wait carries the state
  last seen. The error of \<open>WaitForDHTValue\<close> is a fixed message. Here two DHT nodes answer
  every lookup with different values, neither the expected one, and both waits return the
  same error.
\<close>

theorem WaitForDHTValue_error_counterexample:
  "dht_v1 400 ''k'' \<noteq> dht_v2 400 ''k''
   \<and> WaitForDHTValue None dht_v1 ''k'' ''want'' 500 =
       Some (Errorf ''timeout waiting for DHT value'' [])
   \<and> WaitForDHTValue None dht_v2 ''k'' ''want'' 500 =
       Some (Errorf ''timeout waiting for DHT value'' [])"
  by (simp add: WaitForDHTValue_def WithTimeout_def ticker_loop.simps dht_v1_def dht_v2_def)

text \<open>
  C8, amended. When a wait times out it returns an error made from a fixed message: that
  of \<open>WaitForPeerCount\<close> carries the expected count and the peer count read when the
  context is done, that of \<open>WaitForProtocolReady\<close> the protocol identifier waited for, and
  those of \<open>WaitForConnection\<close> and \<open>WaitForDHTValue\<close> carry no state.
\<close>

theorem timeout_errors:
  "(WaitForConnection ctx node1 node2 timeout subscribed evs = Return (Some err, h) \<longrightarrow>
      err = Errorf ''timeout waiting for connection'' [])
   \<and> (WaitForPeerCount ctx node n timeout = Some err \<longrightarrow>
      err = Errorf ''timeout: expected %d peers, got %d''
              [ArgInt n, ArgInt (int (length (Peers (node (WithTimeout ctx timeout)))))])
   \<and> (WaitForProtocolReady ctx node peerID protocolID timeout = Some err \<longrightarrow>
      err = Errorf ''timeout waiting for protocol %s'' [ArgStr protocolID])
   \<and> (WaitForDHTValue ctx dhtNode key expectedValue timeout = Some err \<longrightarrow>
      err = Errorf ''timeout waiting for DHT value'' [])"
proof (intro conjI impI)
  assume "WaitForConnection ctx node1 node2 timeout subscribed evs = Return (Some err, h)"
  then show "err = Errorf ''timeout waiting for connection'' []"
    unfolding WaitForConnection_result by (simp split: if_splits)
next
  assume "WaitForPeerCount ctx node n timeout = Some err"
  then show "err = Errorf ''timeout: expected %d peers, got %d''
              [ArgInt n, ArgInt (int (length (Peers (node (WithTimeout ctx timeout)))))]"
    by (simp add: WaitForPeerCount_def Let_def split: option.splits)
next
  assume "WaitForProtocolReady ctx node peerID protocolID timeout = Some err"
  then show "err = Errorf ''timeout waiting for protocol %s'' [ArgStr protocolID]"
    by (simp add: WaitForProtocolReady_def Let_def split: option.splits)
next
  assume "WaitForDHTValue ctx dhtNode key expectedValue timeout = Some err"
  then show "err = Errorf ''timeout waiting for DHT value'' []"
    by (simp add: WaitForDHTValue_def Let_def split: option.splits)
qed

theorem timeout_errors_witness:
  "WaitForConnection None demo_A demo_B 5000 2 [] =
     Return (Some (Errorf ''timeout waiting for connection'' []), demo_A)
   \<and> WaitForPeerCount None steady_host 3 200 =
       Some (Errorf ''timeout: expected %d peers, got %d'' [ArgInt 3, ArgInt 1])
   \<and> WaitForProtocolReady None other_protocols_host ''B'' PingProtocol 250 =
       Some (Errorf ''timeout waiting for protocol %s'' [ArgStr PingProtocol])
   \<and> WaitForDHTValue None dht_empty ''k'' ''want'' 500 =
       Some (Errorf ''timeout waiting for DHT value'' [])"
proof -
  have a: "\<exists>err. WaitForConnection None demo_A demo_B 5000 2 [] = Return (Some err, demo_A)"
    by (simp add: WaitForConnection_result demo_A_def demo_B_def)
  have b: "\<exists>err. WaitForPeerCount None steady_host 3 200 = Some err"
    by (simp add: WaitForPeerCount_def WithTimeout_def ticker_loop.simps steady_host_def)
  have c: "\<exists>err. WaitForProtocolReady None other_protocols_host ''B'' PingProtocol 250 = Some err"
    by (simp add: WaitForProtocolReady_def WithTimeout_def ticker_loop.simps
        other_protocols_host_def PingProtocol_def)
  have d: "\<exists>err. WaitForDHTValue None dht_empty ''k'' ''want'' 500 = Some err"
    by (simp add: WaitForDHTValue_def WithTimeout_def ticker_loop.simps dht_empty_def)
  have s: "length (Peers (steady_host (WithTimeout None 200))) = 1"
    by (simp add: steady_host_def)
  from a obtain e1 where e1: "WaitForConnection None demo_A demo_B 5000 2 [] = Return (Some e1, demo_A)"
    by blast
  from b obtain e2 where e2: "WaitForPeerCount None steady_host 3 200 = Some e2"
    by blast
  from c obtain e3 where e3: "WaitForProtocolReady None other_protocols_host ''B'' PingProtocol 250 = Some e3"
    by blast
  from d obtain e4 where e4: "WaitForDHTValue None dht_empty ''k'' ''want'' 500 = Some e4"
    by blast
  have p1: "e1 = Errorf ''timeout waiting for connection'' []"
    by (rule timeout_errors [THEN conjunct1, THEN mp, OF e1])
  have p2: "e2 = Errorf ''timeout: expected %d peers, got %d''
              [ArgInt 3, ArgInt (int (length (Peers (steady_host (WithTimeout None 200)))))]"
    by (rule timeout_errors [THEN conjunct2, THEN conjunct1, THEN mp, OF e2])
  have p3: "e3 = Errorf ''timeout waiting for protocol %s'' [ArgStr PingProtocol]"
    by (rule timeout_errors [THEN conjunct2, THEN conjunct2, THEN conjunct1, THEN mp, OF e3])
  have p4: "e4 = Errorf ''timeout waiting for DHT value'' []"
    by (rule timeout_errors [THEN conjunct2, THEN conjunct2, THEN conjunct2, THEN mp, OF e4])
  show ?thesis
    using e1 e2 e3 e4 p1 p2 p3 p4 by (simp add: s)
qed

section \<open>The subscription ends with the wait\<close>

text \<open>
  C9. Whatever the context, the timeout and the events, \<open>WaitForConnection\<close> returns, and
  the notifiees registered with the host are then those registered before the call: the
  notifiee of the call is not among them. This holds on the return without subscription
  (the hosts are connected already), on success, and when the context is done by its
  timeout or by a cancellation from outside.
\<close>

theorem WaitForConnection_unsubscribes:
  "\<exists>res h. WaitForConnection ctx node1 node2 timeout subscribed evs = Return (res, h)
     \<and> notifiees h = notifiees node1
     \<and> new_address (notifiees node1) \<notin> set (notifiees h)"
  by (simp add: WaitForConnection_result new_address_fresh)

theorem WaitForConnection_unsubscribes_witness:
  "(\<exists>res h. WaitForConnection None demo_A demo_B 5000 2 [(3, EvConnected ''B'')] = Return (res, h)
      \<and> notifiees h = [7] \<and> 8 \<notin> set (notifiees h))
   \<and> (\<exists>res h. WaitForConnection None demo_A demo_B 5000 2 [] = Return (res, h)
      \<and> notifiees h = [7] \<and> 8 \<notin> set (notifiees h))
   \<and> (\<exists>res h. WaitForConnection (Some 10) demo_A demo_B 5000 2 [(30, EvConnected ''B'')] = Return (res, h)
      \<and> notifiees h = [7] \<and> 8 \<notin> set (notifiees h))"
proof -
  have n: "notifiees demo_A = [7]"
    by (simp add: demo_A_def)
  have a: "new_address [7] = 8"
    by (simp add: new_address_def)
  show ?thesis
    using WaitForConnection_unsubscribes [of None demo_A demo_B 5000 2 "[(3, EvConnected ''B'')]"]
      WaitForConnection_unsubscribes [of None demo_A demo_B 5000 2 "[]"]
      WaitForConnection_unsubscribes [of "Some 10" demo_A demo_B 5000 2 "[(30, EvConnected ''B'')]"]
    by (simp add: n a)
qed

end
